theory Spec2Isabelle
  imports Complex_Main
begin

section \<open>Python strings and POSIX paths\<close>

text \<open>
  The script \<^verbatim>\<open>demo/image_demo.py\<close> manipulates paths with \<^verbatim>\<open>str.replace\<close>
  and \<^verbatim>\<open>os.path\<close>. Python strings are modelled as \<^typ>\<open>string\<close>; \<^verbatim>\<open>os.path\<close> is
  the POSIX flavour (\<^verbatim>\<open>posixpath\<close>, separator \<^verbatim>\<open>/\<close>).
\<close>

definition startswith :: "string \<Rightarrow> string \<Rightarrow> bool" where
  "startswith s p = (take (length p) s = p)"

definition endswith :: "string \<Rightarrow> string \<Rightarrow> bool" where
  "endswith s p = (length p \<le> length s \<and> drop (length s - length p) s = p)"

text \<open>
  \<^verbatim>\<open>s.replace(old, new)\<close>: every non-overlapping occurrence of \<^verbatim>\<open>old\<close>, found from
  the left, is replaced; an empty \<^verbatim>\<open>old\<close> matches before every character and at the
  end.
\<close>

function py_replace :: "string \<Rightarrow> string \<Rightarrow> string \<Rightarrow> string" where
  "py_replace old new [] = (if old = [] then new else [])"
| "py_replace old new (c # cs) =
     (if old = [] then new @ c # py_replace old new cs
      else if startswith (c # cs) old
        then new @ py_replace old new (drop (length old) (c # cs))
      else c # py_replace old new cs)"
  by pat_completeness auto
termination
  by (relation "measure (\<lambda>(old, new, s). length s)") auto

text \<open>\<^verbatim>\<open>s.rfind(c)\<close> for a one-character \<^verbatim>\<open>c\<close>: the highest index, or -1.\<close>

fun rfind :: "string \<Rightarrow> char \<Rightarrow> int" where
  "rfind [] c = - 1"
| "rfind (x # xs) c =
     (let r = rfind xs c in if 0 \<le> r then r + 1 else if x = c then 0 else - 1)"

text \<open>\<^verbatim>\<open>s.split(c)\<close> for a one-character separator.\<close>

fun py_split :: "char \<Rightarrow> string \<Rightarrow> string list" where
  "py_split c [] = [[]]"
| "py_split c (x # xs) =
     (if x = c then [] # py_split c xs
      else (case py_split c xs of [] \<Rightarrow> [[x]] | w # ws \<Rightarrow> (x # w) # ws))"

text \<open>\<^verbatim>\<open>sep.join(parts)\<close>.\<close>

fun py_join :: "string \<Rightarrow> string list \<Rightarrow> string" where
  "py_join sep [] = []"
| "py_join sep [p] = p"
| "py_join sep (p # q # ps) = p @ sep @ py_join sep (q # ps)"

text \<open>\<^verbatim>\<open>posixpath.basename(p)\<close>: \<^verbatim>\<open>i = p.rfind('/') + 1; return p[i:]\<close>.\<close>

definition basename :: "string \<Rightarrow> string" where
  "basename p = drop (nat (rfind p CHR ''/'' + 1)) p"

text \<open>
  \<^verbatim>\<open>posixpath.join(a, b)\<close>, one step of the loop of \<^verbatim>\<open>join(a, *p)\<close>, and the loop.
\<close>

definition join :: "string \<Rightarrow> string \<Rightarrow> string" where
  "join path b =
     (if startswith b ''/'' then b
      else if path = [] \<or> endswith path ''/'' then path @ b
      else path @ ''/'' @ b)"

definition join_all :: "string \<Rightarrow> string list \<Rightarrow> string" where
  "join_all a p = foldl join a p"

text \<open>
  \<^verbatim>\<open>posixpath.splitext(p)\<close> is \<^verbatim>\<open>genericpath._splitext(p, '/', None, '.')\<close>: the
  extension starts at the last dot, provided that dot comes after the last separator
  and is not one of the leading dots of the last component.
\<close>

function splitext_loop :: "string \<Rightarrow> nat \<Rightarrow> nat \<Rightarrow> string \<times> string" where
  "splitext_loop p filenameIndex dotIndex =
     (if filenameIndex < dotIndex then
        (if take 1 (drop filenameIndex p) \<noteq> ''.'' then (take dotIndex p, drop dotIndex p)
         else splitext_loop p (filenameIndex + 1) dotIndex)
      else (p, []))"
  by pat_completeness auto
termination
  by (relation "measure (\<lambda>(p, filenameIndex, dotIndex). dotIndex - filenameIndex)") auto

definition splitext :: "string \<Rightarrow> string \<times> string" where
  "splitext p =
     (let sepIndex = rfind p CHR ''/'';
          dotIndex = rfind p CHR ''.''
      in if sepIndex < dotIndex then splitext_loop p (nat (sepIndex + 1)) (nat dotIndex)
         else (p, []))"

text \<open>\<^verbatim>\<open>posixpath.normpath\<close>: the loop over the components, then the result.\<close>

definition normpath_step :: "nat \<Rightarrow> string list \<Rightarrow> string \<Rightarrow> string list" where
  "normpath_step initial_slashes new_comps component =
     (if component = [] \<or> component = ''.'' then new_comps
      else if component \<noteq> ''..'' \<or> (initial_slashes = 0 \<and> new_comps = [])
              \<or> (new_comps \<noteq> [] \<and> last new_comps = ''..'')
        then new_comps @ [component]
      else if new_comps \<noteq> [] then butlast new_comps
      else new_comps)"

definition normpath :: "string \<Rightarrow> string" where
  "normpath path =
     (if path = [] then ''.''
      else
        let initial_slashes =
              (if startswith path ''/'' then
                 (if startswith path ''//'' \<and> \<not> startswith path ''///'' then 2 else 1)
               else 0);
            comps = foldl (normpath_step initial_slashes) [] (py_split CHR ''/'' path);
            joined = replicate initial_slashes CHR ''/'' @ py_join ''/'' comps
        in if joined = [] then ''.'' else joined)"

text \<open>
  \<^verbatim>\<open>posixpath.abspath(path)\<close>; the working directory \<^verbatim>\<open>os.getcwd()\<close> is a parameter.
\<close>

definition abspath :: "string \<Rightarrow> string \<Rightarrow> string" where
  "abspath cwd path = normpath (if startswith path ''/'' then path else join cwd path)"

section \<open>Exceptions\<close>

text \<open>
  \<^verbatim>\<open>RuntimeError\<close> is what the two \<^verbatim>\<open>raise\<close> statements of \<^verbatim>\<open>main\<close> raise.
  \<^verbatim>\<open>TypeError\<close>, \<^verbatim>\<open>AttributeError\<close> and \<^verbatim>\<open>ValueError\<close> are raised by Python itself
  (a membership test on \<^verbatim>\<open>None\<close>, \<^verbatim>\<open>None.replace\<close>, \<^verbatim>\<open>os.path.relpath('')\<close>).
  \<^verbatim>\<open>External\<close> is an exception that leaves a call into mmcv, mmdet, mmengine or mmyolo.
\<close>

type_synonym ext_error = string

datatype exn =
    RuntimeError string
  | TypeError
  | AttributeError
  | ValueError
  | External ext_error

text \<open>
  \<^verbatim>\<open>genericpath.commonprefix([a, b])\<close> compares the least and the greatest of its
  arguments; for two lists that is their longest common prefix.
\<close>

fun commonprefix :: "'a list \<Rightarrow> 'a list \<Rightarrow> 'a list" where
  "commonprefix (x # xs) (y # ys) = (if x = y then x # commonprefix xs ys else [])"
| "commonprefix xs ys = []"

text \<open>\<^verbatim>\<open>posixpath.relpath(path, start)\<close>.\<close>

definition relpath :: "string \<Rightarrow> string \<Rightarrow> string \<Rightarrow> exn + string" where
  "relpath cwd path start =
     (if path = [] then Inl ValueError
      else
        let start_list = filter (\<lambda>x. x \<noteq> []) (py_split CHR ''/'' (abspath cwd start));
            path_list = filter (\<lambda>x. x \<noteq> []) (py_split CHR ''/'' (abspath cwd path));
            i = length (commonprefix start_list path_list);
            rel_list = replicate (length start_list - i) ''..'' @ drop i path_list
        in (case rel_list of [] \<Rightarrow> Inr ''.'' | a # p \<Rightarrow> Inr (join_all a p)))"

section \<open>Data of the demo script\<close>

text \<open>The namespace returned by \<^verbatim>\<open>parse_args\<close>; \<^verbatim>\<open>show_flag\<close> is \<^verbatim>\<open>args.show\<close>.\<close>

record args =
  img :: string
  config :: string
  checkpoint :: string
  out_dir :: string
  device :: string
  show_flag :: bool
  deploy :: bool
  score_thr :: real
  class_name :: "string list option"
  to_labelme :: bool

text \<open>The defaults of the optional arguments in \<^verbatim>\<open>parse_args\<close>.\<close>

definition parse_args_defaults :: "string \<Rightarrow> string \<Rightarrow> string \<Rightarrow> args" where
  "parse_args_defaults i c k =
     \<lparr>img = i, config = c, checkpoint = k, out_dir = ''./output'', device = ''cuda:0'',
      show_flag = False, deploy = False, score_thr = 0.3, class_name = None,
      to_labelme = False\<rparr>"

text \<open>
  What the script reads of the detector: \<^verbatim>\<open>model.cfg.visualizer\<close> and the dictionary
  \<^verbatim>\<open>model.dataset_meta\<close>; the rest of the object is opaque.
\<close>

type_synonym dataset_meta = "(string \<times> string list) list"

record model =
  model_obj :: string
  cfg_visualizer :: string
  dataset_meta :: dataset_meta

record visualizer =
  vis_obj :: string
  vis_dataset_meta :: "dataset_meta option"

record labelme_format =
  lf_obj :: string

record source_type =
  is_dir :: bool
  is_url :: bool
  is_file :: bool

type_synonym image = "nat list"

text \<open>
  A detection result: \<^verbatim>\<open>result.pred_instances\<close> holds one row per predicted instance
  (box, class label, confidence score), \<^verbatim>\<open>result.metainfo\<close> the image's metadata.
  Scores and the threshold are compared as real numbers.
\<close>

record pred_instance =
  bbox :: "real \<times> real \<times> real \<times> real"
  label :: nat
  score :: real

record det_data_sample =
  pred_instances :: "pred_instance list"
  metainfo :: "(string \<times> string) list"

text \<open>The keyword arguments of \<^verbatim>\<open>visualizer.add_datasample\<close>.\<close>

record datasample_call =
  ds_name :: string
  ds_image :: image
  ds_data_sample :: det_data_sample
  ds_draw_gt :: bool
  ds_show :: bool
  ds_wait_time :: nat
  ds_out_file :: "string option"
  ds_pred_score_thr :: real

section \<open>Calls into the framework\<close>

text \<open>
  Every call that leaves the script is an event, with its arguments; a run of \<^verbatim>\<open>main\<close>
  produces the list of the calls it made, in order.
\<close>

datatype event =
    RegisterAllModules
  | InitDetector string string string
  | SwitchToDeploy model
  | MkdirOrExist string
  | BuildVisualizer string
  | GetFileList string
  | LabelmeFormat "string list option"
  | ShowDataClasses "string list option"
  | ProgressBar nat
  | InferenceDetector model string
  | Imread string
  | Imconvert image string string
  | ProgressBarUpdate
  | ToLabelFormat labelme_format "pred_instance list" "(string \<times> string) list" string
      "string list option"
  | AddDatasample visualizer datasample_call
  | PrintLog string

text \<open>
  The framework and the file system are a parameter: each function gives the outcome of
  one call, \<^verbatim>\<open>Inl\<close> the exception it raises or \<^verbatim>\<open>Inr\<close> the value it returns, and may
  depend on the calls made before it (its first argument). \<^verbatim>\<open>switch_to_deploy\<close> changes
  the detector in place: here it returns the detector as changed. \<^verbatim>\<open>new_labelme_format\<close>
  and \<^verbatim>\<open>new_progress_bar\<close> are the constructors \<^verbatim>\<open>LabelmeFormat\<close> and \<^verbatim>\<open>ProgressBar\<close>.
\<close>

record world =
  getcwd :: string
  register_all_modules :: "event list \<Rightarrow> ext_error + unit"
  init_detector :: "event list \<Rightarrow> string \<Rightarrow> string \<Rightarrow> string \<Rightarrow> ext_error + model"
  switch_to_deploy :: "event list \<Rightarrow> model \<Rightarrow> ext_error + model"
  mkdir_or_exist :: "event list \<Rightarrow> string \<Rightarrow> ext_error + unit"
  build_visualizer :: "event list \<Rightarrow> string \<Rightarrow> ext_error + visualizer"
  get_file_list :: "event list \<Rightarrow> string \<Rightarrow> ext_error + string list \<times> source_type"
  new_labelme_format :: "event list \<Rightarrow> string list option \<Rightarrow> ext_error + labelme_format"
  show_data_classes :: "event list \<Rightarrow> string list option \<Rightarrow> ext_error + unit"
  new_progress_bar :: "event list \<Rightarrow> nat \<Rightarrow> ext_error + unit"
  inference_detector :: "event list \<Rightarrow> model \<Rightarrow> string \<Rightarrow> ext_error + det_data_sample"
  imread :: "event list \<Rightarrow> string \<Rightarrow> ext_error + image"
  imconvert :: "event list \<Rightarrow> image \<Rightarrow> string \<Rightarrow> string \<Rightarrow> ext_error + image"
  progress_bar_update :: "event list \<Rightarrow> ext_error + unit"
  to_label_format :: "event list \<Rightarrow> labelme_format \<Rightarrow> pred_instance list \<Rightarrow>
      (string \<times> string) list \<Rightarrow> string \<Rightarrow> string list option \<Rightarrow> ext_error + unit"
  add_datasample :: "event list \<Rightarrow> visualizer \<Rightarrow> datasample_call \<Rightarrow> ext_error + unit"
  print_log :: "event list \<Rightarrow> string \<Rightarrow> ext_error + unit"

text \<open>
  A piece of the script takes the calls made so far and returns them extended, with the
  exception that ended it or its value.
\<close>

type_synonym 'a prog = "event list \<Rightarrow> event list \<times> (exn + 'a)"

definition ret :: "'a \<Rightarrow> 'a prog" where
  "ret v = (\<lambda>t. (t, Inr v))"

definition raise_exn :: "exn \<Rightarrow> 'a prog" where
  "raise_exn e = (\<lambda>t. (t, Inl e))"

definition andthen :: "'a prog \<Rightarrow> ('a \<Rightarrow> 'b prog) \<Rightarrow> 'b prog" where
  "andthen m k = (\<lambda>t. case m t of (t', Inl e) \<Rightarrow> (t', Inl e) | (t', Inr v) \<Rightarrow> k v t')"

definition call :: "event \<Rightarrow> (event list \<Rightarrow> ext_error + 'a) \<Rightarrow> 'a prog" where
  "call ev f = (\<lambda>t. (t @ [ev], case f t of Inl x \<Rightarrow> Inl (External x) | Inr v \<Rightarrow> Inr v))"

section \<open>The script\<close>

definition conflict_msg :: string where
  "conflict_msg = ''`--to-labelme` or `--show` only can choose one at the same time.''"

definition unknown_class_msg :: "string \<Rightarrow> string" where
  "unknown_class_msg class_name' =
     ''Expected args.class_name to be one of the list, but got '' @ [CHR 0x22] @ class_name'
       @ [CHR 0x22]"

definition saved_msg :: "string \<Rightarrow> string" where
  "saved_msg location = CHR 0x0A # ''Results have been saved at '' @ location"

definition labelme_saved_msg :: "string \<Rightarrow> string" where
  "labelme_saved_msg location =
     CHR 0x0A # ''Labelme format label files had all been saved in '' @ location"

text \<open>
  Lines 54 to 77 of \<^verbatim>\<open>main\<close>: registering the modules, building the detector and the
  visualizer, creating the output directory, listing the files, reading the class list.
\<close>

record prepared =
  st_model :: model
  st_visualizer :: visualizer
  st_files :: "string list"
  st_source_type :: source_type
  st_dataset_classes :: "string list option"
  st_to_label_format :: labelme_format

definition prepare :: "world \<Rightarrow> args \<Rightarrow> prepared prog" where
  "prepare w a =
     andthen (call RegisterAllModules (register_all_modules w)) (\<lambda>_.
     andthen (call (InitDetector (config a) (checkpoint a) (device a))
                (\<lambda>t. init_detector w t (config a) (checkpoint a) (device a))) (\<lambda>model0.
     andthen (if deploy a
              then call (SwitchToDeploy model0) (\<lambda>t. switch_to_deploy w t model0)
              else ret model0) (\<lambda>model.
     andthen (if \<not> show_flag a
              then call (MkdirOrExist (out_dir a)) (\<lambda>t. mkdir_or_exist w t (out_dir a))
              else ret ()) (\<lambda>_.
     andthen (call (BuildVisualizer (cfg_visualizer model))
                (\<lambda>t. build_visualizer w t (cfg_visualizer model))) (\<lambda>visualizer0.
     let visualizer = visualizer0\<lparr>vis_dataset_meta := Some (dataset_meta model)\<rparr> in
     andthen (call (GetFileList (img a)) (\<lambda>t. get_file_list w t (img a))) (\<lambda>(files, source_type).
     let dataset_classes = map_of (dataset_meta model) ''classes'' in
     andthen (call (LabelmeFormat dataset_classes)
                (\<lambda>t. new_labelme_format w t dataset_classes)) (\<lambda>to_label_format'.
     ret \<lparr>st_model = model, st_visualizer = visualizer, st_files = files,
          st_source_type = source_type, st_dataset_classes = dataset_classes,
          st_to_label_format = to_label_format'\<rparr>)))))))"

text \<open>
  Lines 80 to 87: the loop over \<^verbatim>\<open>args.class_name\<close>. The membership test raises
  \<^verbatim>\<open>TypeError\<close> when the detector's metadata has no class list.
\<close>

fun check_class_names :: "world \<Rightarrow> string list option \<Rightarrow> string list \<Rightarrow> unit prog" where
  "check_class_names w dataset_classes [] = ret ()"
| "check_class_names w dataset_classes (class_name' # rest) =
     (case dataset_classes of
        None \<Rightarrow> raise_exn TypeError
      | Some classes \<Rightarrow>
          if class_name' \<in> set classes then check_class_names w dataset_classes rest
          else andthen (call (ShowDataClasses dataset_classes)
                          (\<lambda>t. show_data_classes w t dataset_classes))
                 (\<lambda>_. raise_exn (RuntimeError (unknown_class_msg class_name'))))"

definition check_class_name :: "world \<Rightarrow> args \<Rightarrow> string list option \<Rightarrow> unit prog" where
  "check_class_name w a dataset_classes =
     (case class_name a of
        None \<Rightarrow> ret ()
      | Some names \<Rightarrow> check_class_names w dataset_classes names)"

text \<open>Lines 97 to 100: the name of the output file.\<close>

definition out_filename :: "world \<Rightarrow> args \<Rightarrow> source_type \<Rightarrow> string \<Rightarrow> exn + string" where
  "out_filename w a source_type file =
     (if is_dir source_type then
        (case relpath (getcwd w) file (img a) of
           Inl e \<Rightarrow> Inl e
         | Inr r \<Rightarrow> Inr (py_replace ''/'' ''_'' r))
      else Inr (basename file))"

text \<open>Lines 111 and 112: the path of the labelme file.\<close>

definition labelme_out_file :: "string \<Rightarrow> string" where
  "labelme_out_file out_file = py_replace (snd (splitext out_file)) ''.json'' out_file"

text \<open>Lines 92 to 125: the body of the loop, for one file.\<close>

definition process_file :: "world \<Rightarrow> args \<Rightarrow> prepared \<Rightarrow> string \<Rightarrow> unit prog" where
  "process_file w a s file =
     andthen (call (InferenceDetector (st_model s) file)
                (\<lambda>t. inference_detector w t (st_model s) file)) (\<lambda>result.
     andthen (call (Imread file) (\<lambda>t. imread w t file)) (\<lambda>image0.
     andthen (call (Imconvert image0 ''bgr'' ''rgb'')
                (\<lambda>t. imconvert w t image0 ''bgr'' ''rgb'')) (\<lambda>image1.
     andthen (case out_filename w a (st_source_type s) file of
                Inl e \<Rightarrow> raise_exn e | Inr f \<Rightarrow> ret f) (\<lambda>filename.
     let out_file = (if show_flag a then None else Some (join (out_dir a) filename)) in
     andthen (call ProgressBarUpdate (progress_bar_update w)) (\<lambda>_.
     let pred_instances' =
           filter (\<lambda>p. score_thr a < score p) (pred_instances result) in
     if to_labelme a then
       (case out_file of
          None \<Rightarrow> raise_exn AttributeError
        | Some f \<Rightarrow>
            call (ToLabelFormat (st_to_label_format s) pred_instances' (metainfo result)
                    (labelme_out_file f) (class_name a))
              (\<lambda>t. to_label_format w t (st_to_label_format s) pred_instances'
                     (metainfo result) (labelme_out_file f) (class_name a)))
     else
       (let kw = \<lparr>ds_name = filename, ds_image = image1, ds_data_sample = result,
                  ds_draw_gt = False, ds_show = show_flag a, ds_wait_time = 0,
                  ds_out_file = out_file, ds_pred_score_thr = score_thr a\<rparr>
        in call (AddDatasample (st_visualizer s) kw)
             (\<lambda>t. add_datasample w t (st_visualizer s) kw)))))))"

text \<open>Line 91: the loop over the files.\<close>

fun process_files :: "world \<Rightarrow> args \<Rightarrow> prepared \<Rightarrow> string list \<Rightarrow> unit prog" where
  "process_files w a s [] = ret ()"
| "process_files w a s (file # files) =
     andthen (process_file w a s file) (\<lambda>_. process_files w a s files)"

text \<open>Lines 127 to 133: the completion message.\<close>

definition report :: "world \<Rightarrow> args \<Rightarrow> unit prog" where
  "report w a =
     (if \<not> show_flag a \<and> \<not> to_labelme a then
        call (PrintLog (saved_msg (abspath (getcwd w) (out_dir a))))
          (\<lambda>t. print_log w t (saved_msg (abspath (getcwd w) (out_dir a))))
      else if to_labelme a then
        call (PrintLog (labelme_saved_msg (out_dir a)))
          (\<lambda>t. print_log w t (labelme_saved_msg (out_dir a)))
      else ret ())"

definition main :: "world \<Rightarrow> args \<Rightarrow> unit prog" where
  "main w a =
     (if to_labelme a \<and> show_flag a then raise_exn (RuntimeError conflict_msg)
      else
        andthen (prepare w a) (\<lambda>s.
        andthen (check_class_name w a (st_dataset_classes s)) (\<lambda>_.
        andthen (call (ProgressBar (length (st_files s)))
                   (\<lambda>t. new_progress_bar w t (length (st_files s)))) (\<lambda>_.
        andthen (process_files w a s (st_files s)) (\<lambda>_.
        report w a)))))"

text \<open>A run of the script starts with no call made; the process exits with 0 or 1.\<close>

definition run :: "world \<Rightarrow> args \<Rightarrow> event list \<times> (exn + unit)" where
  "run w a = main w a []"


section \<open>Vocabulary for the properties\<close>

text \<open>Replacing every \<^verbatim>\<open>/\<close> of a path by \<^verbatim>\<open>_\<close>.\<close>

definition flatten :: "string \<Rightarrow> string" where
  "flatten r = map (\<lambda>c. if c = CHR ''/'' then CHR ''_'' else c) r"

text \<open>The number of positions of \<^verbatim>\<open>s\<close> at which \<^verbatim>\<open>sub\<close> occurs.\<close>

fun occurrences :: "string \<Rightarrow> string \<Rightarrow> nat" where
  "occurrences sub [] = (if sub = [] then 1 else 0)"
| "occurrences sub (c # cs) =
     (if startswith (c # cs) sub then 1 else 0) + occurrences sub cs"



definition is_progress :: "event \<Rightarrow> bool" where
  "is_progress ev = (case ev of ProgressBar n \<Rightarrow> True | ProgressBarUpdate \<Rightarrow> True | _ \<Rightarrow> False)"

definition is_print :: "event \<Rightarrow> bool" where
  "is_print ev = (case ev of PrintLog m \<Rightarrow> True | _ \<Rightarrow> False)"

text \<open>
  The exception, if any, with which the environment answers a call made after the
  calls \<^verbatim>\<open>t\<close>; an environment never fails when it answers no call with an exception.
\<close>

definition err_of :: "'e + 'a \<Rightarrow> 'e option" where
  "err_of r = (case r of Inl x \<Rightarrow> Some x | Inr v \<Rightarrow> None)"

fun response :: "world \<Rightarrow> event list \<Rightarrow> event \<Rightarrow> ext_error option" where
  "response w t RegisterAllModules = err_of (register_all_modules w t)"
| "response w t (InitDetector c k d) = err_of (init_detector w t c k d)"
| "response w t (SwitchToDeploy m) = err_of (switch_to_deploy w t m)"
| "response w t (MkdirOrExist d) = err_of (mkdir_or_exist w t d)"
| "response w t (BuildVisualizer c) = err_of (build_visualizer w t c)"
| "response w t (GetFileList i) = err_of (get_file_list w t i)"
| "response w t (LabelmeFormat c) = err_of (new_labelme_format w t c)"
| "response w t (ShowDataClasses c) = err_of (show_data_classes w t c)"
| "response w t (ProgressBar n) = err_of (new_progress_bar w t n)"
| "response w t (InferenceDetector m f) = err_of (inference_detector w t m f)"
| "response w t (Imread f) = err_of (imread w t f)"
| "response w t (Imconvert i src dst) = err_of (imconvert w t i src dst)"
| "response w t ProgressBarUpdate = err_of (progress_bar_update w t)"
| "response w t (ToLabelFormat l p m f c) = err_of (to_label_format w t l p m f c)"
| "response w t (AddDatasample v kw) = err_of (add_datasample w t v kw)"
| "response w t (PrintLog m) = err_of (print_log w t m)"


text \<open>Every requested class name is in the detector's class list.\<close>

definition known_classes :: "args \<Rightarrow> string list option \<Rightarrow> bool" where
  "known_classes a dataset_classes =
     (case class_name a of
        None \<Rightarrow> True
      | Some names \<Rightarrow>
          (case dataset_classes of
             None \<Rightarrow> names = []
           | Some classes \<Rightarrow> set names \<subseteq> set classes))"

text \<open>
  \<^verbatim>\<open>emits P m\<close>: whatever calls were made before, \<^verbatim>\<open>m\<close> only adds calls, and each
  call it adds satisfies \<^verbatim>\<open>P\<close>.
\<close>

definition emits :: "(event \<Rightarrow> bool) \<Rightarrow> 'a prog \<Rightarrow> bool" where
  "emits P m = (\<forall>t. \<exists>new. fst (m t) = t @ new \<and> list_all P new)"

text \<open>
  \<^verbatim>\<open>unhandled w m\<close>: no exception of a call is caught by \<^verbatim>\<open>m\<close>. A call that the
  environment answers with an exception is the last call \<^verbatim>\<open>m\<close> makes and its exception
  is the outcome of \<^verbatim>\<open>m\<close>; and when \<^verbatim>\<open>m\<close> ends with an exception of the framework,
  that exception is the answer to its last call.
\<close>

definition unhandled :: "world \<Rightarrow> 'a prog \<Rightarrow> bool" where
  "unhandled w m =
     (\<forall>t. \<exists>new. fst (m t) = t @ new
        \<and> (\<forall>pre ev post x. new = pre @ ev # post \<longrightarrow> response w (t @ pre) ev = Some x
              \<longrightarrow> post = [] \<and> snd (m t) = Inl (External x))
        \<and> (\<forall>x. snd (m t) = Inl (External x)
              \<longrightarrow> (\<exists>pre ev. new = pre @ [ev] \<and> response w (t @ pre) ev = Some x)))"

section \<open>A sample environment\<close>

text \<open>
  A detector with two classes, a directory \<^verbatim>\<open>imgs\<close> holding two images (one in a
  subdirectory), and calls that all return. Any other \<^verbatim>\<open>img\<close> argument is taken as a
  single image file.
\<close>

definition demo_model :: model where
  "demo_model =
     \<lparr>model_obj = ''yolov5_s'', cfg_visualizer = ''DetLocalVisualizer'',
      dataset_meta = [(''classes'', [''cat'', ''dog''])]\<rparr>"

definition demo_result :: det_data_sample where
  "demo_result =
     \<lparr>pred_instances =
        [\<lparr>bbox = (0, 0, 10, 10), label = 0, score = 0.9\<rparr>,
         \<lparr>bbox = (5, 5, 20, 20), label = 1, score = 0.1\<rparr>],
      metainfo = [(''ori_shape'', ''(32, 32)'')]\<rparr>"

definition demo_world :: world where
  "demo_world =
     \<lparr>getcwd = ''/home/user'',
      register_all_modules = (\<lambda>t. Inr ()),
      init_detector = (\<lambda>t c k d. Inr demo_model),
      switch_to_deploy = (\<lambda>t m. Inr m),
      mkdir_or_exist = (\<lambda>t d. Inr ()),
      build_visualizer = (\<lambda>t c. Inr \<lparr>vis_obj = c, vis_dataset_meta = None\<rparr>),
      get_file_list = (\<lambda>t i.
        if i = ''imgs''
        then Inr ([''imgs/a.jpg'', ''imgs/sub/b.jpg''],
                  \<lparr>is_dir = True, is_url = False, is_file = False\<rparr>)
        else Inr ([i], \<lparr>is_dir = False, is_url = False, is_file = True\<rparr>)),
      new_labelme_format = (\<lambda>t c. Inr \<lparr>lf_obj = ''LabelmeFormat''\<rparr>),
      show_data_classes = (\<lambda>t c. Inr ()),
      new_progress_bar = (\<lambda>t n. Inr ()),
      inference_detector = (\<lambda>t m f. Inr demo_result),
      imread = (\<lambda>t f. Inr [1, 2, 3]),
      imconvert = (\<lambda>t i src dst. Inr (rev i)),
      progress_bar_update = (\<lambda>t. Inr ()),
      to_label_format = (\<lambda>t l p m f c. Inr ()),
      add_datasample = (\<lambda>t v kw. Inr ()),
      print_log = (\<lambda>t m. Inr ())\<rparr>"

definition demo_args :: args where
  "demo_args = parse_args_defaults ''imgs'' ''yolov5.py'' ''yolov5.pth''"

definition demo_dir :: source_type where
  "demo_dir = \<lparr>is_dir = True, is_url = False, is_file = False\<rparr>"

definition demo_file :: source_type where
  "demo_file = \<lparr>is_dir = False, is_url = False, is_file = True\<rparr>"

text \<open>What lines 54 to 77 leave behind in the sample environment.\<close>

definition demo_prepared :: "string list \<Rightarrow> source_type \<Rightarrow> prepared" where
  "demo_prepared files st =
     \<lparr>st_model = demo_model,
      st_visualizer = \<lparr>vis_obj = ''DetLocalVisualizer'',
                        vis_dataset_meta = Some (dataset_meta demo_model)\<rparr>,
      st_files = files, st_source_type = st,
      st_dataset_classes = Some [''cat'', ''dog''],
      st_to_label_format = \<lparr>lf_obj = ''LabelmeFormat''\<rparr>\<rparr>"

text \<open>An output directory whose name holds the extension of the image.\<close>

definition clash_args :: args where
  "clash_args = demo_args\<lparr>img := ''a.jpg'', out_dir := ''./out.jpg'', to_labelme := True\<rparr>"

text \<open>The events of the sample runs are written with these constants.\<close>

definition demo_high :: pred_instance where
  "demo_high = \<lparr>bbox = (0, 0, 10, 10), label = 0, score = 0.9\<rparr>"

definition demo_low :: pred_instance where
  "demo_low = \<lparr>bbox = (5, 5, 20, 20), label = 1, score = 0.1\<rparr>"

definition demo_visualizer :: visualizer where
  "demo_visualizer =
     \<lparr>vis_obj = ''DetLocalVisualizer'', vis_dataset_meta = Some (dataset_meta demo_model)\<rparr>"

definition demo_labelme :: labelme_format where
  "demo_labelme = \<lparr>lf_obj = ''LabelmeFormat''\<rparr>"

definition demo_call :: "string \<Rightarrow> string option \<Rightarrow> bool \<Rightarrow> datasample_call" where
  "demo_call name out sh =
     \<lparr>ds_name = name, ds_image = [3, 2, 1], ds_data_sample = demo_result,
      ds_draw_gt = False, ds_show = sh, ds_wait_time = 0, ds_out_file = out,
      ds_pred_score_thr = 0.3\<rparr>"

text \<open>The sample environment with a checkpoint file that cannot be read.\<close>

definition broken_world :: world where
  "broken_world =
     demo_world\<lparr>init_detector := (\<lambda>t c k d. Inl ''FileNotFoundError'')\<rparr>"

section \<open>Sequencing: calls accumulate and exceptions propagate\<close>

text \<open>
  The rules by which \<^verbatim>\<open>emits\<close> and \<^verbatim>\<open>unhandled\<close> pass through \<^verbatim>\<open>ret\<close>, \<^verbatim>\<open>raise_exn\<close>,
  \<^verbatim>\<open>call\<close> and \<^verbatim>\<open>andthen\<close>; the properties of \<^verbatim>\<open>main\<close> are put together from them.
\<close>


lemma emits_ret: "emits P (ret v)"
  by (auto simp: emits_def ret_def)

lemma emits_raise: "emits P (raise_exn e)"
  by (auto simp: emits_def raise_exn_def)

lemma emits_call: "P ev \<Longrightarrow> emits P (call ev f)"
  by (auto simp: emits_def call_def)

lemma emits_andthen:
  assumes m: "emits P m" and k: "\<And>v. emits P (k v)"
  shows "emits P (andthen m k)"
  unfolding emits_def
proof
  fix t
  from m obtain new1 where n1: "fst (m t) = t @ new1" "list_all P new1"
    unfolding emits_def by blast
  show "\<exists>new. fst (andthen m k t) = t @ new \<and> list_all P new"
  proof (cases "snd (m t)")
    case (Inl e)
    with n1 show ?thesis
      by (cases "m t") (auto simp: andthen_def)
  next
    case (Inr v)
    from k[of v] obtain new2
      where n2: "fst (k v (t @ new1)) = (t @ new1) @ new2" "list_all P new2"
      unfolding emits_def by blast
    with n1 Inr show ?thesis
      by (cases "m t") (auto simp: andthen_def)
  qed
qed

lemma emitsD: "emits P m \<Longrightarrow> m t = (t', r) \<Longrightarrow> \<exists>new. t' = t @ new \<and> list_all P new"
  by (auto simp: emits_def dest: spec[of _ t])

lemma unhandledI:
  assumes "\<And>t. fst (m t) = t @ new t"
    and "\<And>t pre ev post x. new t = pre @ ev # post \<Longrightarrow> response w (t @ pre) ev = Some x
              \<Longrightarrow> post = [] \<and> snd (m t) = Inl (External x)"
    and "\<And>t x. snd (m t) = Inl (External x)
              \<Longrightarrow> \<exists>pre ev. new t = pre @ [ev] \<and> response w (t @ pre) ev = Some x"
  shows "unhandled w m"
  unfolding unhandled_def
proof (intro allI)
  fix t
  show "\<exists>new. fst (m t) = t @ new
        \<and> (\<forall>pre ev post x. new = pre @ ev # post \<longrightarrow> response w (t @ pre) ev = Some x
              \<longrightarrow> post = [] \<and> snd (m t) = Inl (External x))
        \<and> (\<forall>x. snd (m t) = Inl (External x)
              \<longrightarrow> (\<exists>pre ev. new = pre @ [ev] \<and> response w (t @ pre) ev = Some x))"
  proof (rule exI[of _ "new t"], intro conjI allI impI)
    show "fst (m t) = t @ new t" by (rule assms(1))
  next
    fix pre ev post x
    assume "new t = pre @ ev # post" "response w (t @ pre) ev = Some x"
    from assms(2)[OF this] show "post = []" by simp
  next
    fix pre ev post x
    assume "new t = pre @ ev # post" "response w (t @ pre) ev = Some x"
    from assms(2)[OF this] show "snd (m t) = Inl (External x)" by simp
  next
    fix x assume "snd (m t) = Inl (External x)"
    from assms(3)[OF this] show "\<exists>pre ev. new t = pre @ [ev] \<and> response w (t @ pre) ev = Some x" .
  qed
qed

lemma unhandled_fst:
  assumes "unhandled w m"
  shows "fst (m t) = t @ drop (length t) (fst (m t))"
  using assms[unfolded unhandled_def, rule_format, of t] by auto

lemma unhandled_fail:
  assumes "unhandled w m"
    and "drop (length t) (fst (m t)) = pre @ ev # post" and "response w (t @ pre) ev = Some x"
  shows "post = [] \<and> snd (m t) = Inl (External x)"
proof -
  from assms(1)[unfolded unhandled_def, rule_format, of t]
  obtain new where n: "fst (m t) = t @ new"
    and f: "\<forall>pre ev post x. new = pre @ ev # post \<longrightarrow> response w (t @ pre) ev = Some x
              \<longrightarrow> post = [] \<and> snd (m t) = Inl (External x)"
    by (elim exE conjE)
  from n assms(2) have "new = pre @ ev # post" by simp
  with f assms(3) show ?thesis by (elim allE impE) assumption+
qed

lemma unhandled_last:
  assumes "unhandled w m" and "snd (m t) = Inl (External x)"
  shows "\<exists>pre ev. drop (length t) (fst (m t)) = pre @ [ev] \<and> response w (t @ pre) ev = Some x"
proof -
  from assms(1)[unfolded unhandled_def, rule_format, of t]
  obtain new where n: "fst (m t) = t @ new"
    and l: "\<forall>x. snd (m t) = Inl (External x)
              \<longrightarrow> (\<exists>pre ev. new = pre @ [ev] \<and> response w (t @ pre) ev = Some x)"
    by (elim exE conjE)
  from n have "drop (length t) (fst (m t)) = new" by simp
  with l assms(2) show ?thesis by simp
qed

lemma unhandled_ret: "unhandled w (ret v)"
  by (rule unhandledI[where new = "\<lambda>t. []"]) (simp_all add: ret_def)

lemma unhandled_raise: "(\<And>x. e \<noteq> External x) \<Longrightarrow> unhandled w (raise_exn e)"
  by (rule unhandledI[where new = "\<lambda>t. []"]) (simp_all add: raise_exn_def)


lemma single_decomp: "[ev] = pre @ ev' # post \<Longrightarrow> pre = [] \<and> ev' = ev \<and> post = []"
  by (cases pre) auto

lemma unhandled_call:
  assumes r: "\<And>t. response w t ev = err_of (f t)"
  shows "unhandled w (call ev f)"
proof (rule unhandledI[where new = "\<lambda>t. [ev]"])
  fix t show "fst (call ev f t) = t @ [ev]" by (simp add: call_def)
next
  fix t pre ev' post x
  assume d: "[ev] = pre @ ev' # post" and s: "response w (t @ pre) ev' = Some x"
  from single_decomp[OF d] have p: "pre = []" "ev' = ev" "post = []" by simp_all
  from s p r[of t] have "err_of (f t) = Some x" by simp
  then have "f t = Inl x" by (cases "f t") (simp_all add: err_of_def)
  with p show "post = [] \<and> snd (call ev f t) = Inl (External x)"
    by (simp add: call_def)
next
  fix t x
  assume "snd (call ev f t) = Inl (External x)"
  then have "f t = Inl x" by (cases "f t") (simp_all add: call_def)
  with r[of t] have "response w (t @ []) ev = Some x" by (simp add: err_of_def)
  then have "[ev] = [] @ [ev] \<and> response w (t @ []) ev = Some x" by simp
  then show "\<exists>pre ev'. [ev] = pre @ [ev'] \<and> response w (t @ pre) ev' = Some x" by blast
qed


lemma unhandled_pointI:
  assumes "fst (m t) = t @ new"
    and "\<And>pre ev post x. new = pre @ ev # post \<Longrightarrow> response w (t @ pre) ev = Some x
              \<Longrightarrow> post = [] \<and> snd (m t) = Inl (External x)"
    and "\<And>x. snd (m t) = Inl (External x)
              \<Longrightarrow> \<exists>pre ev. new = pre @ [ev] \<and> response w (t @ pre) ev = Some x"
  shows "\<exists>new. fst (m t) = t @ new
        \<and> (\<forall>pre ev post x. new = pre @ ev # post \<longrightarrow> response w (t @ pre) ev = Some x
              \<longrightarrow> post = [] \<and> snd (m t) = Inl (External x))
        \<and> (\<forall>x. snd (m t) = Inl (External x)
              \<longrightarrow> (\<exists>pre ev. new = pre @ [ev] \<and> response w (t @ pre) ev = Some x))"
proof (rule exI[of _ new], intro conjI allI impI)
  show "fst (m t) = t @ new" by (rule assms(1))
next
  fix pre ev post x
  assume "new = pre @ ev # post" "response w (t @ pre) ev = Some x"
  from assms(2)[OF this] show "post = []" by simp
next
  fix pre ev post x
  assume "new = pre @ ev # post" "response w (t @ pre) ev = Some x"
  from assms(2)[OF this] show "snd (m t) = Inl (External x)" by simp
next
  fix x assume "snd (m t) = Inl (External x)"
  from assms(3)[OF this] show "\<exists>pre ev. new = pre @ [ev] \<and> response w (t @ pre) ev = Some x" .
qed

lemma append_split_cases:
  assumes "xs @ ys = pre @ e # post"
  shows "(\<exists>us. xs = pre @ e # us \<and> post = us @ ys) \<or> (\<exists>us. pre = xs @ us \<and> ys = us @ e # post)"
  using assms
proof (induction xs arbitrary: pre)
  case Nil
  then show ?case by simp
next
  case (Cons a xs)
  show ?case
  proof (cases pre)
    case Nil
    with Cons.prems show ?thesis by simp
  next
    case (Cons b pre')
    with Cons.prems have "a = b" "xs @ ys = pre' @ e # post" by simp_all
    from Cons.IH[OF this(2)] \<open>a = b\<close> Cons show ?thesis by auto
  qed
qed

lemma unhandled_andthen:
  assumes m: "unhandled w m" and k: "\<And>v. unhandled w (k v)"
  shows "unhandled w (andthen m k)"
  unfolding unhandled_def
proof (intro allI)
  fix t
  define new1 where "new1 = drop (length t) (fst (m t))"
  have n1: "fst (m t) = t @ new1"
    unfolding new1_def by (rule unhandled_fst[OF m])
  have f1: "post = [] \<and> snd (m t) = Inl (External x)"
    if "new1 = pre @ ev # post" "response w (t @ pre) ev = Some x" for pre ev post x
    using that unfolding new1_def by (rule unhandled_fail[OF m])
  have l1: "\<exists>pre ev. new1 = pre @ [ev] \<and> response w (t @ pre) ev = Some x"
    if "snd (m t) = Inl (External x)" for x
    using that unfolding new1_def by (rule unhandled_last[OF m])
  show "\<exists>new. fst (andthen m k t) = t @ new
        \<and> (\<forall>pre ev post x. new = pre @ ev # post \<longrightarrow> response w (t @ pre) ev = Some x
              \<longrightarrow> post = [] \<and> snd (andthen m k t) = Inl (External x))
        \<and> (\<forall>x. snd (andthen m k t) = Inl (External x)
              \<longrightarrow> (\<exists>pre ev. new = pre @ [ev] \<and> response w (t @ pre) ev = Some x))"
  proof (cases "snd (m t)")
    case (Inl e)
    then have fs: "fst (andthen m k t) = fst (m t)" and sn: "snd (andthen m k t) = Inl e"
      by (cases "m t", simp add: andthen_def)+
    show ?thesis
    proof (rule unhandled_pointI[of _ t new1])
      show "fst (andthen m k t) = t @ new1" using fs n1 by simp
    next
      fix pre ev post x
      assume "new1 = pre @ ev # post" "response w (t @ pre) ev = Some x"
      from f1[OF this] Inl sn show "post = [] \<and> snd (andthen m k t) = Inl (External x)" by simp
    next
      fix x
      assume "snd (andthen m k t) = Inl (External x)"
      with sn Inl have "snd (m t) = Inl (External x)" by simp
      then show "\<exists>pre ev. new1 = pre @ [ev] \<and> response w (t @ pre) ev = Some x" by (rule l1)
    qed
  next
    case (Inr v)
    then have eq: "andthen m k t = k v (t @ new1)"
      using n1 by (cases "m t") (simp add: andthen_def)
    define new2 where "new2 = drop (length (t @ new1)) (fst (k v (t @ new1)))"
    have n2: "fst (k v (t @ new1)) = (t @ new1) @ new2"
      unfolding new2_def by (rule unhandled_fst[OF k])
    have f2: "post = [] \<and> snd (k v (t @ new1)) = Inl (External x)"
      if "new2 = pre @ ev # post" "response w ((t @ new1) @ pre) ev = Some x" for pre ev post x
      using that unfolding new2_def by (rule unhandled_fail[OF k])
    have l2: "\<exists>pre ev. new2 = pre @ [ev] \<and> response w ((t @ new1) @ pre) ev = Some x"
      if "snd (k v (t @ new1)) = Inl (External x)" for x
      using that unfolding new2_def by (rule unhandled_last[OF k])
    show ?thesis
    proof (rule unhandled_pointI[of _ t "new1 @ new2"])
      show "fst (andthen m k t) = t @ new1 @ new2"
        using eq n2 by simp
    next
      fix pre ev post x
      assume dec: "new1 @ new2 = pre @ ev # post" and resp: "response w (t @ pre) ev = Some x"
      from append_split_cases[OF dec]
      show "post = [] \<and> snd (andthen m k t) = Inl (External x)"
      proof (elim disjE exE conjE)
        fix us assume l: "new1 = pre @ ev # us" "post = us @ new2"
        from f1[OF l(1) resp] Inr show ?thesis by simp
      next
        fix us assume r: "pre = new1 @ us" "new2 = us @ ev # post"
        from resp r(1) have "response w ((t @ new1) @ us) ev = Some x" by simp
        from f2[OF r(2) this] eq show ?thesis by simp
      qed
    next
      fix x
      assume "snd (andthen m k t) = Inl (External x)"
      with eq have "snd (k v (t @ new1)) = Inl (External x)" by simp
      from l2[OF this] obtain pre ev
        where p: "new2 = pre @ [ev]" "response w ((t @ new1) @ pre) ev = Some x"
        by blast
      then have "new1 @ new2 = (new1 @ pre) @ [ev] \<and> response w (t @ (new1 @ pre)) ev = Some x"
        by simp
      then show "\<exists>pre ev. new1 @ new2 = pre @ [ev] \<and> response w (t @ pre) ev = Some x"
        by blast
    qed
  qed
qed

section \<open>Unfolding the script\<close>

lemmas prog_defs = andthen_def call_def ret_def raise_exn_def

lemmas path_defs = relpath_def abspath_def normpath_def normpath_step_def join_def join_all_def
  startswith_def endswith_def splitext_def basename_def

lemmas script_defs = run_def main_def prepare_def check_class_name_def process_file_def report_def
  out_filename_def labelme_out_file_def saved_msg_def labelme_saved_msg_def

lemma demo_world_simps:
  "getcwd demo_world = ''/home/user''"
  "register_all_modules demo_world t = Inr ()"
  "init_detector demo_world t c k d = Inr demo_model"
  "switch_to_deploy demo_world t m = Inr m"
  "mkdir_or_exist demo_world t dir = Inr ()"
  "build_visualizer demo_world t c = Inr \<lparr>vis_obj = c, vis_dataset_meta = None\<rparr>"
  "get_file_list demo_world t i =
     (if i = ''imgs''
      then Inr ([''imgs/a.jpg'', ''imgs/sub/b.jpg''],
                \<lparr>is_dir = True, is_url = False, is_file = False\<rparr>)
      else Inr ([i], \<lparr>is_dir = False, is_url = False, is_file = True\<rparr>))"
  "new_labelme_format demo_world t cs = Inr \<lparr>lf_obj = ''LabelmeFormat''\<rparr>"
  "show_data_classes demo_world t cs = Inr ()"
  "new_progress_bar demo_world t n = Inr ()"
  "inference_detector demo_world t m f = Inr demo_result"
  "imread demo_world t f = Inr [1, 2, 3]"
  "imconvert demo_world t im src dst = Inr (rev im)"
  "progress_bar_update demo_world t = Inr ()"
  "to_label_format demo_world t l p mt f cn = Inr ()"
  "add_datasample demo_world t v kw = Inr ()"
  "print_log demo_world t msg = Inr ()"
  by (simp_all add: demo_world_def)

lemma demo_model_simps:
  "cfg_visualizer demo_model = ''DetLocalVisualizer''"
  "dataset_meta demo_model = [(''classes'', [''cat'', ''dog''])]"
  by (simp_all add: demo_model_def)

lemma demo_args_simps:
  "img demo_args = ''imgs''" "config demo_args = ''yolov5.py''"
  "checkpoint demo_args = ''yolov5.pth''" "out_dir demo_args = ''./output''"
  "device demo_args = ''cuda:0''" "show_flag demo_args = False" "deploy demo_args = False"
  "score_thr demo_args = 0.3" "class_name demo_args = None" "to_labelme demo_args = False"
  by (simp_all add: demo_args_def parse_args_defaults_def)

lemmas demo_simps = demo_world_simps demo_model_simps demo_args_simps demo_result_def

section \<open>Strings and paths\<close>

text \<open>
  Replacing a one-character pattern is a map over the string; replacing a pattern that
  occurs once, at the end, replaces the end; \<^verbatim>\<open>splitext\<close> splits its argument in two.
\<close>


lemma py_replace_char: "py_replace [c] [d] s = map (\<lambda>x. if x = c then d else x) s"
  by (induction s) (auto simp: startswith_def)

lemma occurrences_suffix: "1 \<le> occurrences sub (stem @ sub)"
proof (induction stem)
  case Nil
  show ?case
    by (cases sub) (simp_all add: startswith_def)
next
  case (Cons r stem)
  then show ?case by simp
qed

lemma py_replace_once:
  "occurrences sub (stem @ sub) = 1 \<Longrightarrow> py_replace sub new (stem @ sub) = stem @ new"
proof (induction stem)
  case Nil
  show ?case
  proof (cases sub)
    case Nil
    then show ?thesis by simp
  next
    case (Cons c cs)
    then show ?thesis by (simp add: startswith_def)
  qed
next
  case (Cons r stem)
  have ge: "1 \<le> occurrences sub (stem @ sub)" by (rule occurrences_suffix)
  from Cons.prems
  have sum: "(if startswith (r # stem @ sub) sub then 1 else 0) + occurrences sub (stem @ sub) = 1"
    by simp
  from sum ge have no: "\<not> startswith (r # stem @ sub) sub"
    and one: "occurrences sub (stem @ sub) = 1"
    by (auto split: if_splits)
  from no have "sub \<noteq> []" by (auto simp: startswith_def)
  with no Cons.IH[OF one] show ?case by simp
qed

lemma splitext_loop_append: "splitext_loop p i d = (stem, ext) \<Longrightarrow> p = stem @ ext"
proof (induction p i d rule: splitext_loop.induct)
  case (1 p i d)
  show ?case
  proof (cases "i < d")
    case False
    with "1.prems" show ?thesis by simp
  next
    case lt: True
    show ?thesis
    proof (cases "take 1 (drop i p) \<noteq> ''.''")
      case True
      with lt "1.prems" show ?thesis by auto
    next
      case False
      with lt "1.prems" have "splitext_loop p (i + 1) d = (stem, ext)" by simp
      with "1.IH" lt False show ?thesis by simp
    qed
  qed
qed

lemma splitext_append: "fst (splitext p) @ snd (splitext p) = p"
proof -
  have "splitext p = (stem, ext) \<Longrightarrow> p = stem @ ext" for stem ext
    by (auto simp: splitext_def Let_def split: if_splits dest: splitext_loop_append
        simp del: splitext_loop.simps)
  from this[of "fst (splitext p)" "snd (splitext p)"] show ?thesis by simp
qed

lemma labelme_out_file_once:
  "occurrences (snd (splitext f)) f = 1 \<Longrightarrow> labelme_out_file f = fst (splitext f) @ ''.json''"
  using py_replace_once[of "snd (splitext f)" "fst (splitext f)" "''.json''"]
  by (simp add: labelme_out_file_def splitext_append)

section \<open>What one pass of the loop hands to the outputs\<close>


lemma process_file_export:
  assumes "process_file w a s file t = (t', r)"
    and "ToLabelFormat l preds meta path cn \<in> set (drop (length t) t')"
  shows "to_labelme a \<and> \<not> show_flag a \<and> l = st_to_label_format s \<and> cn = class_name a
    \<and> (\<exists>filename result. out_filename w a (st_source_type s) file = Inr filename
          \<and> path = labelme_out_file (join (out_dir a) filename)
          \<and> inference_detector w t (st_model s) file = Inr result
          \<and> preds = filter (\<lambda>p. score_thr a < score p) (pred_instances result)
          \<and> meta = metainfo result)"
  using assms
  by (auto simp: process_file_def prog_defs Let_def split: sum.splits option.splits if_splits)

section \<open>The calls each part of the script can make\<close>

text \<open>
  For each part of the script, a property of events holds of every call the part makes
  as soon as it holds of the calls written in that part.
\<close>


lemmas emits_intros = emits_ret emits_raise emits_call emits_andthen

lemma emits_prepare:
  assumes "P RegisterAllModules"
    and "P (InitDetector (config a) (checkpoint a) (device a))"
    and "\<And>m. deploy a \<Longrightarrow> P (SwitchToDeploy m)"
    and "\<not> show_flag a \<Longrightarrow> P (MkdirOrExist (out_dir a))"
    and "\<And>c. P (BuildVisualizer c)"
    and "P (GetFileList (img a))"
    and "\<And>c. P (LabelmeFormat c)"
  shows "emits P (prepare w a)"
  unfolding prepare_def Let_def
  by (intro emits_andthen emits_call emits_ret assms | simp add: assms emits_intros split: prod.splits)+

lemma emits_check_class_names:
  assumes "\<And>c. P (ShowDataClasses c)"
  shows "emits P (check_class_names w dc names)"
  by (induction names) (auto intro!: emits_intros assms split: option.splits)

lemma emits_check_class_name:
  assumes "\<And>c. P (ShowDataClasses c)"
  shows "emits P (check_class_name w a dc)"
  unfolding check_class_name_def
  by (auto intro!: emits_intros emits_check_class_names assms split: option.splits)

lemma emits_process_file:
  assumes "\<And>m f. P (InferenceDetector m f)"
    and "\<And>f. P (Imread f)"
    and "\<And>i src dst. P (Imconvert i src dst)"
    and "P ProgressBarUpdate"
    and "\<And>l p m f c. to_labelme a \<Longrightarrow> \<not> show_flag a \<Longrightarrow> P (ToLabelFormat l p m f c)"
    and "\<And>v kw. \<not> to_labelme a \<Longrightarrow> ds_show kw = show_flag a
           \<Longrightarrow> (show_flag a \<longrightarrow> ds_out_file kw = None) \<Longrightarrow> P (AddDatasample v kw)"
  shows "emits P (process_file w a s file)"
  unfolding process_file_def Let_def
  by (intro emits_andthen emits_call emits_ret assms
      | simp add: assms emits_intros split: sum.splits option.splits)+

lemma emits_process_files:
  assumes "\<And>file. emits P (process_file w a s file)"
  shows "emits P (process_files w a s files)"
  by (induction files) (auto intro!: emits_intros assms)

lemma emits_report:
  assumes "\<And>m. \<not> show_flag a \<or> to_labelme a \<Longrightarrow> P (PrintLog m)"
  shows "emits P (report w a)"
  unfolding report_def
  by (auto intro!: emits_intros assms)

lemma main_no_conflict:
  assumes "\<not> (to_labelme a \<and> show_flag a)"
  shows "main w a =
      andthen (prepare w a) (\<lambda>s.
      andthen (check_class_name w a (st_dataset_classes s)) (\<lambda>_.
      andthen (call (ProgressBar (length (st_files s)))
                 (\<lambda>t. new_progress_bar w t (length (st_files s)))) (\<lambda>_.
      andthen (process_files w a s (st_files s)) (\<lambda>_.
      report w a))))"
  unfolding main_def using assms by (rule if_not_P)

lemma emits_main:
  assumes "P RegisterAllModules"
    and "P (InitDetector (config a) (checkpoint a) (device a))"
    and "\<And>m. deploy a \<Longrightarrow> P (SwitchToDeploy m)"
    and "\<not> show_flag a \<Longrightarrow> P (MkdirOrExist (out_dir a))"
    and "\<And>c. P (BuildVisualizer c)"
    and "P (GetFileList (img a))"
    and "\<And>c. P (LabelmeFormat c)"
    and "\<And>c. P (ShowDataClasses c)"
    and "\<And>n. P (ProgressBar n)"
    and "\<And>m f. P (InferenceDetector m f)"
    and "\<And>f. P (Imread f)"
    and "\<And>i src dst. P (Imconvert i src dst)"
    and "P ProgressBarUpdate"
    and "\<And>l p m f c. to_labelme a \<Longrightarrow> \<not> show_flag a \<Longrightarrow> P (ToLabelFormat l p m f c)"
    and "\<And>v kw. \<not> to_labelme a \<Longrightarrow> ds_show kw = show_flag a
           \<Longrightarrow> (show_flag a \<longrightarrow> ds_out_file kw = None) \<Longrightarrow> P (AddDatasample v kw)"
    and "\<And>m. \<not> show_flag a \<Longrightarrow> P (PrintLog m)"
  shows "emits P (main w a)"
proof (cases "to_labelme a \<and> show_flag a")
  case True
  then show ?thesis by (simp add: main_def emits_raise)
next
  case False
  have prep: "emits P (prepare w a)"
    by (rule emits_prepare) (fact assms)+
  have chk: "emits P (check_class_name w a dc)" for dc
    by (rule emits_check_class_name) (fact assms)
  have one: "emits P (process_file w a s f)" for s f
    by (rule emits_process_file) (fact assms)+
  have loop: "emits P (process_files w a s files)" for s files
    by (rule emits_process_files) (fact one)
  have rep: "emits P (report w a)"
    by (rule emits_report) (use False assms(16) in auto)
  note eq = main_no_conflict[OF False]
  show ?thesis
    unfolding eq by (intro emits_andthen emits_call prep chk loop rep assms(9))
qed

section \<open>The check of the class names\<close>

text \<open>The outcome of the loop of lines 80 to 87, by cases on the requested names.\<close>


lemma check_class_names_known:
  "set names \<subseteq> set classes \<Longrightarrow> check_class_names w (Some classes) names t = (t, Inr ())"
  by (induction names) (simp_all add: ret_def)

lemma check_class_names_unknown:
  "\<not> set names \<subseteq> set classes \<Longrightarrow>
   check_class_names w (Some classes) names t =
     (t @ [ShowDataClasses (Some classes)],
      case show_data_classes w t (Some classes) of
        Inl x \<Rightarrow> Inl (External x)
      | Inr u \<Rightarrow> Inl (RuntimeError
                  (unknown_class_msg (hd (filter (\<lambda>n. n \<notin> set classes) names)))))"
  by (induction names) (auto simp: prog_defs split: sum.splits)

lemma check_class_names_None:
  "check_class_names w None names t = (if names = [] then (t, Inr ()) else (t, Inl TypeError))"
  by (cases names) (simp_all add: prog_defs)

lemma check_class_name_ok_iff:
  "check_class_name w a dc t = (t', Inr ()) \<longleftrightarrow> t' = t \<and> known_classes a dc"
proof (cases "class_name a")
  case None
  then show ?thesis by (auto simp: check_class_name_def known_classes_def ret_def)
next
  case (Some names)
  show ?thesis
  proof (cases dc)
    case None
    with Some show ?thesis
      by (auto simp: check_class_name_def known_classes_def check_class_names_None)
  next
    case (Some classes)
    with \<open>class_name a = Some names\<close> show ?thesis
      by (cases "set names \<subseteq> set classes")
         (auto simp: check_class_name_def known_classes_def check_class_names_known
            check_class_names_unknown split: sum.splits)
  qed
qed

text \<open>A run that completes has gone through every part of the script.\<close>

lemma run_ok_decompose:
  assumes "run w a = (tr, Inr ())"
  shows "\<not> (to_labelme a \<and> show_flag a)
    \<and> (\<exists>t0 s t1. prepare w a [] = (t0, Inr s) \<and> known_classes a (st_dataset_classes s)
          \<and> new_progress_bar w t0 (length (st_files s)) = Inr ()
          \<and> process_files w a s (st_files s) (t0 @ [ProgressBar (length (st_files s))])
              = (t1, Inr ())
          \<and> report w a t1 = (tr, Inr ()))"
proof -
  have nc: "\<not> (to_labelme a \<and> show_flag a)"
    using assms by (auto simp: run_def main_def raise_exn_def)
  obtain t0 r0 where p: "prepare w a [] = (t0, r0)" by (cases "prepare w a []")
  from assms nc p obtain s where r0: "r0 = Inr s"
    by (cases r0) (auto simp: run_def main_no_conflict andthen_def)
  obtain tc rc where c: "check_class_name w a (st_dataset_classes s) t0 = (tc, rc)"
    by (cases "check_class_name w a (st_dataset_classes s) t0")
  from assms nc p r0 c have rc: "rc = Inr ()"
    by (cases rc) (auto simp: run_def main_no_conflict andthen_def)
  from c rc have tc: "tc = t0" and kn: "known_classes a (st_dataset_classes s)"
    by (simp_all add: check_class_name_ok_iff)
  let ?n = "length (st_files s)"
  from assms nc p r0 c rc tc have pb: "new_progress_bar w t0 ?n = Inr ()"
    by (cases "new_progress_bar w t0 ?n") (auto simp: run_def main_no_conflict prog_defs)
  obtain t1 r1 where l: "process_files w a s (st_files s) (t0 @ [ProgressBar ?n]) = (t1, r1)"
    by (cases "process_files w a s (st_files s) (t0 @ [ProgressBar ?n])")
  from assms nc p r0 c rc tc pb l have r1: "r1 = Inr ()"
    by (cases r1) (auto simp: run_def main_no_conflict prog_defs)
  from assms nc p r0 c rc tc pb l r1 have rep: "report w a t1 = (tr, Inr ())"
    by (simp add: run_def main_no_conflict prog_defs)
  from nc p r0 kn pb l r1 rep show ?thesis by blast
qed

lemma main_conflict:
  "to_labelme a \<Longrightarrow> show_flag a \<Longrightarrow> main w a t = (t, Inl (RuntimeError conflict_msg))"
  by (simp add: main_def raise_exn_def)


lemma run_unknown_class:
  assumes "\<not> (to_labelme a \<and> show_flag a)" and "prepare w a [] = (t0, Inr s)"
    and "st_dataset_classes s = Some classes" and "class_name a = Some names"
    and "\<not> set names \<subseteq> set classes"
  shows "run w a =
     (t0 @ [ShowDataClasses (Some classes)],
      case show_data_classes w t0 (Some classes) of
        Inl x \<Rightarrow> Inl (External x)
      | Inr u \<Rightarrow> Inl (RuntimeError
                  (unknown_class_msg (hd (filter (\<lambda>n. n \<notin> set classes) names)))))"
  using assms
  by (simp add: run_def main_no_conflict andthen_def check_class_name_def
      check_class_names_unknown split: sum.splits)

section \<open>The progress bar in the loop\<close>

text \<open>A pass of the loop that completes has updated the progress bar exactly once.\<close>


lemma process_file_extends:
  "\<exists>new. fst (process_file w a s f t) = t @ new"
proof -
  have "emits (\<lambda>ev. True) (process_file w a s f)"
    by (rule emits_process_file) simp_all
  then show ?thesis unfolding emits_def by blast
qed

lemma process_file_progress:
  assumes "process_file w a s f t = (t', r)"
  shows "filter is_progress (drop (length t) t')
           = (if r = Inr () then [ProgressBarUpdate] else filter is_progress (drop (length t) t'))
         \<and> length (filter is_progress (drop (length t) t')) \<le> 1"
  using assms
  by (auto simp: process_file_def prog_defs Let_def is_progress_def
      split: sum.splits option.splits if_splits)

lemma process_files_progress:
  assumes "process_files w a s fs t = (t', Inr ())"
  shows "\<exists>new. t' = t @ new \<and> filter is_progress new = replicate (length fs) ProgressBarUpdate"
  using assms
proof (induction fs arbitrary: t t')
  case Nil
  then show ?case by (simp add: ret_def)
next
  case (Cons f fs)
  obtain t1 r1 where p1: "process_file w a s f t = (t1, r1)" by (cases "process_file w a s f t")
  with Cons.prems have r1: "r1 = Inr ()" and rest: "process_files w a s fs t1 = (t', Inr ())"
    by (auto simp: andthen_def split: sum.splits)
  from process_file_extends[of w a s f t] p1 obtain new1 where n1: "t1 = t @ new1" by auto
  from process_file_progress[OF p1] r1 n1 have f1: "filter is_progress new1 = [ProgressBarUpdate]"
    by simp
  from Cons.IH[OF rest] obtain new2 where n2: "t' = t1 @ new2"
    and f2: "filter is_progress new2 = replicate (length fs) ProgressBarUpdate" by blast
  from n1 n2 f1 f2 have "t' = t @ (new1 @ new2)
    \<and> filter is_progress (new1 @ new2) = replicate (length (f # fs)) ProgressBarUpdate"
    by simp
  then show ?case by blast
qed

lemma prepare_no_progress:
  assumes "prepare w a t = (t', r)"
  shows "\<exists>new. t' = t @ new \<and> filter is_progress new = [] \<and> filter is_print new = []"
proof -
  have "emits (\<lambda>ev. \<not> is_progress ev \<and> \<not> is_print ev) (prepare w a)"
    by (rule emits_prepare) (simp_all add: is_progress_def is_print_def)
  from emitsD[OF this assms] show ?thesis
    by (auto simp: list_all_iff filter_empty_conv)
qed

lemma report_no_progress:
  assumes "report w a t = (t', r)"
  shows "\<exists>new. t' = t @ new \<and> filter is_progress new = []"
proof -
  have "emits (\<lambda>ev. \<not> is_progress ev) (report w a)"
    by (rule emits_report) (simp_all add: is_progress_def)
  from emitsD[OF this assms] show ?thesis
    by (auto simp: list_all_iff filter_empty_conv)
qed

section \<open>An environment that never fails\<close>



lemma relpath_error: "relpath cwd path start = Inl e \<Longrightarrow> e = ValueError \<and> path = []"
  by (auto simp: relpath_def Let_def split: list.splits if_splits)

lemma out_filename_error:
  "out_filename w a st f = Inl e \<Longrightarrow> e = ValueError \<and> is_dir st \<and> f = []"
  by (auto simp: out_filename_def split: if_splits sum.splits dest: relpath_error)





section \<open>No exception of a call is caught\<close>

text \<open>Every part of the script is built from calls and sequencing only.\<close>


lemma unhandled_if:
  "(c \<Longrightarrow> unhandled w m) \<Longrightarrow> (\<not> c \<Longrightarrow> unhandled w n) \<Longrightarrow> unhandled w (if c then m else n)"
  by simp

lemma unhandled_case_prod:
  "(\<And>x y. unhandled w (f x y)) \<Longrightarrow> unhandled w (case p of (x, y) \<Rightarrow> f x y)"
  by (cases p) simp

lemma unhandled_prepare: "unhandled w (prepare w a)"
  unfolding prepare_def Let_def
  by (intro unhandled_andthen unhandled_if unhandled_case_prod unhandled_call unhandled_ret)
     simp_all

lemma unhandled_check_class_names: "unhandled w (check_class_names w dc names)"
proof (induction names)
  case Nil
  show ?case by (simp add: unhandled_ret)
next
  case (Cons n names)
  show ?case
  proof (cases dc)
    case None
    then show ?thesis by (simp add: unhandled_raise)
  next
    case (Some classes)
    have "unhandled w (andthen (call (ShowDataClasses dc) (\<lambda>t. show_data_classes w t dc))
            (\<lambda>_. raise_exn (RuntimeError (unknown_class_msg n)) :: unit prog))"
      by (intro unhandled_andthen unhandled_call unhandled_raise) simp_all
    with Some Cons.IH show ?thesis by simp
  qed
qed

lemma unhandled_check_class_name: "unhandled w (check_class_name w a dc)"
  unfolding check_class_name_def
  by (cases "class_name a") (simp_all add: unhandled_ret unhandled_check_class_names)

lemma unhandled_out_filename:
  "unhandled w (case out_filename w a st f of Inl e \<Rightarrow> raise_exn e | Inr g \<Rightarrow> ret g)"
proof (cases "out_filename w a st f")
  case (Inl e)
  from out_filename_error[OF this] have "e = ValueError" by simp
  with Inl show ?thesis by (simp add: unhandled_raise)
next
  case (Inr g)
  then show ?thesis by (simp add: unhandled_ret)
qed

lemma unhandled_process_file: "unhandled w (process_file w a s f)"
  unfolding process_file_def Let_def
  by (intro unhandled_andthen unhandled_if unhandled_call unhandled_out_filename)
     (simp_all add: unhandled_raise unhandled_call split: option.splits)

lemma unhandled_process_files: "unhandled w (process_files w a s fs)"
  by (induction fs) (simp_all add: unhandled_ret unhandled_andthen unhandled_process_file)

lemma unhandled_report: "unhandled w (report w a)"
  unfolding report_def
  by (intro unhandled_if unhandled_call unhandled_ret) simp_all

lemma unhandled_main: "unhandled w (main w a)"
proof (cases "to_labelme a \<and> show_flag a")
  case True
  then show ?thesis by (simp add: main_def unhandled_raise)
next
  case False
  show ?thesis
    unfolding main_no_conflict[OF False]
    by (intro unhandled_andthen unhandled_call unhandled_prepare unhandled_check_class_name
        unhandled_process_files unhandled_report) simp
qed

section \<open>Where a RuntimeError can come from\<close>

text \<open>
  Lines 54 to 77, the loop and the completion message end with exceptions of the
  framework or of Python, never with a \<^verbatim>\<open>RuntimeError\<close> of the script.
\<close>


lemma prepare_error: "snd (prepare w a t) = Inl e \<Longrightarrow> \<exists>x. e = External x"
  by (auto simp: prepare_def prog_defs Let_def split: sum.splits if_splits prod.splits)

lemma process_file_error:
  "snd (process_file w a s f t) = Inl e \<Longrightarrow> \<forall>m. e \<noteq> RuntimeError m"
  by (auto simp: process_file_def prog_defs Let_def
      split: sum.splits if_splits option.splits dest: out_filename_error)

lemma process_files_error:
  "snd (process_files w a s fs t) = Inl e \<Longrightarrow> \<forall>m. e \<noteq> RuntimeError m"
proof (induction fs arbitrary: t)
  case Nil
  then show ?case by (simp add: ret_def)
next
  case (Cons f fs)
  obtain t1 r1 where p: "process_file w a s f t = (t1, r1)" by (cases "process_file w a s f t")
  show ?case
  proof (cases r1)
    case (Inl e1)
    with p Cons.prems have "snd (process_file w a s f t) = Inl e" by (simp add: andthen_def)
    then show ?thesis by (rule process_file_error)
  next
    case (Inr u)
    with p Cons.prems have "snd (process_files w a s fs t1) = Inl e" by (simp add: andthen_def)
    then show ?thesis by (rule Cons.IH)
  qed
qed

lemma report_error: "snd (report w a t) = Inl e \<Longrightarrow> \<exists>x. e = External x"
  by (auto simp: report_def prog_defs split: sum.splits if_splits)

lemma after_check_error:
  assumes "snd (andthen (call (ProgressBar n) (\<lambda>t. new_progress_bar w t n))
             (\<lambda>_. andthen (process_files w a s fs) (\<lambda>_. report w a)) t) = Inl e"
  shows "\<forall>m. e \<noteq> RuntimeError m"
proof (cases "new_progress_bar w t n")
  case (Inl x)
  with assms show ?thesis by (auto simp: prog_defs)
next
  case (Inr u)
  obtain t1 r1 where l: "process_files w a s fs (t @ [ProgressBar n]) = (t1, r1)"
    by (cases "process_files w a s fs (t @ [ProgressBar n])")
  show ?thesis
  proof (cases r1)
    case (Inl e1)
    with Inr l assms have "snd (process_files w a s fs (t @ [ProgressBar n])) = Inl e"
      by (simp add: prog_defs)
    then show ?thesis by (rule process_files_error)
  next
    case r1: (Inr u1)
    with Inr l assms have "snd (report w a t1) = Inl e"
      by (simp add: prog_defs)
    from report_error[OF this] show ?thesis by auto
  qed
qed

lemma check_class_name_runtime_error:
  assumes "check_class_name w a dc t = (t', Inl (RuntimeError m))"
  shows "\<exists>classes names. dc = Some classes \<and> class_name a = Some names
      \<and> \<not> set names \<subseteq> set classes \<and> show_data_classes w t (Some classes) = Inr ()
      \<and> m = unknown_class_msg (hd (filter (\<lambda>n. n \<notin> set classes) names))
      \<and> t' = t @ [ShowDataClasses (Some classes)]"
proof (cases "class_name a")
  case None
  with assms show ?thesis by (simp add: check_class_name_def ret_def)
next
  case (Some names)
  show ?thesis
  proof (cases dc)
    case None
    with Some assms show ?thesis
      by (simp add: check_class_name_def check_class_names_None split: if_splits)
  next
    case dc: (Some classes)
    show ?thesis
    proof (cases "set names \<subseteq> set classes")
      case True
      with Some dc assms show ?thesis
        by (simp add: check_class_name_def check_class_names_known)
    next
      case False
      with Some dc assms show ?thesis
        by (cases "show_data_classes w t (Some classes)")
           (auto simp: check_class_name_def check_class_names_unknown)
    qed
  qed
qed

lemma run_runtime_error:
  assumes "run w a = (tr, Inl (RuntimeError m))" and "\<not> (to_labelme a \<and> show_flag a)"
  shows "\<exists>t0 s classes names. prepare w a [] = (t0, Inr s)
      \<and> st_dataset_classes s = Some classes \<and> class_name a = Some names
      \<and> \<not> set names \<subseteq> set classes \<and> show_data_classes w t0 (Some classes) = Inr ()
      \<and> m = unknown_class_msg (hd (filter (\<lambda>n. n \<notin> set classes) names))
      \<and> tr = t0 @ [ShowDataClasses (Some classes)]"
proof -
  obtain t0 r0 where p: "prepare w a [] = (t0, r0)" by (cases "prepare w a []")
  show ?thesis
  proof (cases r0)
    case (Inl e)
    with p assms have "snd (prepare w a []) = Inl (RuntimeError m)"
      by (simp add: run_def main_no_conflict andthen_def)
    from prepare_error[OF this] show ?thesis by simp
  next
    case (Inr s)
    obtain tc rc where c: "check_class_name w a (st_dataset_classes s) t0 = (tc, rc)"
      by (cases "check_class_name w a (st_dataset_classes s) t0")
    show ?thesis
    proof (cases rc)
      case (Inl e)
      with p Inr c assms have "tc = tr" "e = RuntimeError m"
        by (simp_all add: run_def main_no_conflict andthen_def)
      with c Inl have "check_class_name w a (st_dataset_classes s) t0 = (tr, Inl (RuntimeError m))"
        by simp
      from check_class_name_runtime_error[OF this] p Inr show ?thesis by blast
    next
      case rc: (Inr u)
      with p Inr c assms
      have "snd (andthen (call (ProgressBar (length (st_files s)))
                  (\<lambda>t. new_progress_bar w t (length (st_files s))))
             (\<lambda>_. andthen (process_files w a s (st_files s)) (\<lambda>_. report w a)) tc)
            = Inl (RuntimeError m)"
        by (simp add: run_def main_no_conflict andthen_def)
      from after_check_error[OF this] show ?thesis by simp
    qed
  qed
qed

section \<open>Runs of the sample environment\<close>

lemmas demo_event_defs = demo_high_def demo_low_def demo_visualizer_def demo_labelme_def
  demo_call_def demo_prepared_def demo_file_def demo_dir_def

text \<open>The run of the sample environment on the directory \<^verbatim>\<open>imgs\<close>.\<close>

lemma demo_run:
  "run demo_world demo_args =
     ([RegisterAllModules, InitDetector ''yolov5.py'' ''yolov5.pth'' ''cuda:0'',
       MkdirOrExist ''./output'', BuildVisualizer ''DetLocalVisualizer'',
       GetFileList ''imgs'', LabelmeFormat (Some [''cat'', ''dog'']), ProgressBar 2,
       InferenceDetector demo_model ''imgs/a.jpg'', Imread ''imgs/a.jpg'',
       Imconvert [1, 2, 3] ''bgr'' ''rgb'', ProgressBarUpdate,
       AddDatasample demo_visualizer (demo_call ''a.jpg'' (Some ''./output/a.jpg'') False),
       InferenceDetector demo_model ''imgs/sub/b.jpg'', Imread ''imgs/sub/b.jpg'',
       Imconvert [1, 2, 3] ''bgr'' ''rgb'', ProgressBarUpdate,
       AddDatasample demo_visualizer
         (demo_call ''sub_b.jpg'' (Some ''./output/sub_b.jpg'') False),
       PrintLog (saved_msg ''/home/user/output'')], Inr ())"
  by (simp add: script_defs prog_defs path_defs demo_simps demo_event_defs Let_def)

text \<open>One pass of the loop in the sample environment, with the visualizer.\<close>

lemma demo_process_render:
  "process_file demo_world demo_args (demo_prepared fs demo_file) ''pics/c.png'' []
   = ([InferenceDetector demo_model ''pics/c.png'', Imread ''pics/c.png'',
       Imconvert [1, 2, 3] ''bgr'' ''rgb'', ProgressBarUpdate,
       AddDatasample demo_visualizer (demo_call ''c.png'' (Some ''./output/c.png'') False)],
      Inr ())"
  by (simp add: script_defs prog_defs path_defs demo_simps demo_event_defs Let_def)

text \<open>The same run with \<^verbatim>\<open>--show\<close>.\<close>

lemma demo_show_run:
  "run demo_world (demo_args\<lparr>show_flag := True\<rparr>) =
     ([RegisterAllModules, InitDetector ''yolov5.py'' ''yolov5.pth'' ''cuda:0'',
       BuildVisualizer ''DetLocalVisualizer'',
       GetFileList ''imgs'', LabelmeFormat (Some [''cat'', ''dog'']), ProgressBar 2,
       InferenceDetector demo_model ''imgs/a.jpg'', Imread ''imgs/a.jpg'',
       Imconvert [1, 2, 3] ''bgr'' ''rgb'', ProgressBarUpdate,
       AddDatasample demo_visualizer (demo_call ''a.jpg'' None True),
       InferenceDetector demo_model ''imgs/sub/b.jpg'', Imread ''imgs/sub/b.jpg'',
       Imconvert [1, 2, 3] ''bgr'' ''rgb'', ProgressBarUpdate,
       AddDatasample demo_visualizer (demo_call ''sub_b.jpg'' None True)], Inr ())"
  by (simp add: script_defs prog_defs path_defs demo_simps demo_event_defs Let_def)

text \<open>Lines 54 to 77, and the loop over one file, in the sample environment.\<close>

lemma demo_prepare:
  "prepare demo_world demo_args [] =
     ([RegisterAllModules, InitDetector ''yolov5.py'' ''yolov5.pth'' ''cuda:0'',
       MkdirOrExist ''./output'', BuildVisualizer ''DetLocalVisualizer'',
       GetFileList ''imgs'', LabelmeFormat (Some [''cat'', ''dog''])],
      Inr (demo_prepared [''imgs/a.jpg'', ''imgs/sub/b.jpg''] demo_dir))"
  by (simp add: script_defs prog_defs demo_simps demo_event_defs Let_def)

lemma demo_loop_one:
  "process_files demo_world demo_args (demo_prepared fs demo_file) [''pics/c.png''] []
   = ([InferenceDetector demo_model ''pics/c.png'', Imread ''pics/c.png'',
       Imconvert [1, 2, 3] ''bgr'' ''rgb'', ProgressBarUpdate,
       AddDatasample demo_visualizer (demo_call ''c.png'' (Some ''./output/c.png'') False)],
      Inr ())"
  by (simp add: demo_process_render andthen_def ret_def)




text \<open>The run in the environment whose checkpoint cannot be read.\<close>

lemma broken_run:
  "run broken_world demo_args =
     ([RegisterAllModules, InitDetector ''yolov5.py'' ''yolov5.pth'' ''cuda:0''],
      Inl (External ''FileNotFoundError''))"
  by (simp add: script_defs prog_defs broken_world_def demo_simps)

lemma broken_response:
  "response broken_world [RegisterAllModules]
     (InitDetector ''yolov5.py'' ''yolov5.pth'' ''cuda:0'') = Some ''FileNotFoundError''"
  by (simp add: broken_world_def err_of_def)

section \<open>The conflicting flags\<close>

text \<open>
  C1. When both \<^verbatim>\<open>--show\<close> and \<^verbatim>\<open>--to-labelme\<close> are set, the run ends with the
  \<^verbatim>\<open>RuntimeError\<close> of line 51 and has made no call at all: no module is registered, no
  detector is built, no file is listed, no image is processed and nothing is written
  or printed.
\<close>

theorem conflicting_flags_fail_first:
  "to_labelme a \<Longrightarrow> show_flag a \<Longrightarrow> run w a = ([], Inl (RuntimeError conflict_msg))"
  by (simp add: run_def main_def raise_exn_def)

theorem conflicting_flags_fail_first_witness:
  "to_labelme (demo_args\<lparr>show_flag := True, to_labelme := True\<rparr>)
   \<and> show_flag (demo_args\<lparr>show_flag := True, to_labelme := True\<rparr>)
   \<and> run demo_world (demo_args\<lparr>show_flag := True, to_labelme := True\<rparr>)
       = ([], Inl (RuntimeError conflict_msg))"
  using conflicting_flags_fail_first
    [of "demo_args\<lparr>show_flag := True, to_labelme := True\<rparr>" demo_world]
  by simp

section \<open>The name of the output file\<close>

text \<open>
  C3. For a directory input the output file name is the path of the file relative to
  the input directory with every \<^verbatim>\<open>/\<close> replaced by \<^verbatim>\<open>_\<close>, so it holds no separator;
  for any other input it is the basename of the file.
\<close>

theorem output_filename_flattened:
  "(is_dir st \<longrightarrow> relpath (getcwd w) file (img a) = Inr rel
      \<longrightarrow> out_filename w a st file = Inr (flatten rel) \<and> CHR ''/'' \<notin> set (flatten rel))
   \<and> (\<not> is_dir st \<longrightarrow> out_filename w a st file = Inr (basename file))"
  by (auto simp: out_filename_def flatten_def py_replace_char)

theorem output_filename_flattened_witness:
  "is_dir demo_dir
   \<and> relpath (getcwd demo_world) ''imgs/sub/b.jpg'' (img demo_args) = Inr ''sub/b.jpg''
   \<and> out_filename demo_world demo_args demo_dir ''imgs/sub/b.jpg'' = Inr ''sub_b.jpg''
   \<and> \<not> is_dir demo_file
   \<and> out_filename demo_world demo_args demo_file ''pics/c.png'' = Inr ''c.png''"
proof -
  have rel: "relpath (getcwd demo_world) ''imgs/sub/b.jpg'' (img demo_args) = Inr ''sub/b.jpg''"
    by (simp add: path_defs demo_simps)
  have d: "is_dir demo_dir" and f: "\<not> is_dir demo_file"
    by (simp_all add: demo_dir_def demo_file_def)
  from output_filename_flattened
    [of demo_dir demo_world "''imgs/sub/b.jpg''" demo_args "''sub/b.jpg''"] d rel
  have 1: "out_filename demo_world demo_args demo_dir ''imgs/sub/b.jpg''
             = Inr (flatten ''sub/b.jpg'')"
    by simp
  from output_filename_flattened[of demo_file demo_world "''pics/c.png''" demo_args] f
  have 2: "out_filename demo_world demo_args demo_file ''pics/c.png''
             = Inr (basename ''pics/c.png'')"
    by simp
  from 1 2 d f rel show ?thesis
    by (simp add: flatten_def basename_def)
qed

section \<open>The path of the labelme file\<close>

text \<open>
  Where the output path \<^verbatim>\<open>os.path.join(args.out_dir, filename)\<close> holds its extension
  exactly once, line 111 replaces the final extension by \<^verbatim>\<open>.json\<close>.
\<close>

lemma labelme_path_single_occurrence:
  assumes "process_file w a s file t = (t', r)"
    and "ToLabelFormat l preds meta path cn \<in> set (drop (length t) t')"
    and "out_filename w a (st_source_type s) file = Inr filename"
    and "occurrences (snd (splitext (join (out_dir a) filename))) (join (out_dir a) filename) = 1"
  shows "path = fst (splitext (join (out_dir a) filename)) @ ''.json''"
  using process_file_export[OF assms(1,2)] assms(3) labelme_out_file_once[OF assms(4)]
  by auto


lemma clash_run:
  "run demo_world clash_args =
     ([RegisterAllModules, InitDetector ''yolov5.py'' ''yolov5.pth'' ''cuda:0'',
       MkdirOrExist ''./out.jpg'', BuildVisualizer ''DetLocalVisualizer'',
       GetFileList ''a.jpg'', LabelmeFormat (Some [''cat'', ''dog'']), ProgressBar 1,
       InferenceDetector demo_model ''a.jpg'', Imread ''a.jpg'',
       Imconvert [1, 2, 3] ''bgr'' ''rgb'', ProgressBarUpdate,
       ToLabelFormat \<lparr>lf_obj = ''LabelmeFormat''\<rparr>
         [\<lparr>bbox = (0, 0, 10, 10), label = 0, score = 0.9\<rparr>]
         [(''ori_shape'', ''(32, 32)'')] ''./out.json/a.json'' None,
       PrintLog (labelme_saved_msg ''./out.jpg'')], Inr ())"
  by (simp add: script_defs prog_defs path_defs demo_simps clash_args_def Let_def)

text \<open>
  C10. The code breaks the claim. Line 111 replaces every occurrence of the extension
  in the joined path, not the final extension only. With \<^verbatim>\<open>--out-dir ./out.jpg\<close> and the
  image \<^verbatim>\<open>a.jpg\<close>, whose file name holds its extension exactly once, the export is handed
  \<^verbatim>\<open>./out.json/a.json\<close> and not \<^verbatim>\<open>./out.jpg/a.json\<close>, while the directory that line 64
  creates and the completion message names is \<^verbatim>\<open>./out.jpg\<close>.
\<close>

theorem labelme_path_defect:
  "to_labelme clash_args
   \<and> out_filename demo_world clash_args demo_file ''a.jpg'' = Inr ''a.jpg''
   \<and> splitext (join (out_dir clash_args) ''a.jpg'') = (''./out.jpg/a'', ''.jpg'')
   \<and> occurrences ''.jpg'' ''a.jpg'' = 1
   \<and> MkdirOrExist ''./out.jpg'' \<in> set (fst (run demo_world clash_args))
   \<and> ToLabelFormat \<lparr>lf_obj = ''LabelmeFormat''\<rparr>
         [\<lparr>bbox = (0, 0, 10, 10), label = 0, score = 0.9\<rparr>]
         [(''ori_shape'', ''(32, 32)'')] ''./out.json/a.json'' None
       \<in> set (fst (run demo_world clash_args))
   \<and> PrintLog (labelme_saved_msg ''./out.jpg'') \<in> set (fst (run demo_world clash_args))
   \<and> snd (run demo_world clash_args) = Inr ()
   \<and> ''./out.json/a.json'' \<noteq> ''./out.jpg/a'' @ ''.json''"
  by (simp add: clash_run)
     (simp add: clash_args_def demo_simps out_filename_def demo_file_def path_defs)

section \<open>The score threshold\<close>




section \<open>One output path for each image\<close>



section \<open>Show mode\<close>

text \<open>
  C9. With \<^verbatim>\<open>--show\<close> a run never calls \<^verbatim>\<open>mkdir_or_exist\<close>, so the output directory
  is not created, never calls the labelme export, and hands \<^verbatim>\<open>out_file = None\<close> to
  every call of the visualizer: the script's own output path writes no file.
\<close>

theorem show_mode_writes_nothing:
  assumes "show_flag a" and "ev \<in> set (fst (run w a))"
  shows "(\<forall>d. ev \<noteq> MkdirOrExist d)
    \<and> (\<forall>l p m f c. ev \<noteq> ToLabelFormat l p m f c)
    \<and> (\<forall>v kw. ev = AddDatasample v kw \<longrightarrow> ds_out_file kw = None)"
proof -
  let ?P = "\<lambda>ev. (\<forall>d. ev \<noteq> MkdirOrExist d)
    \<and> (\<forall>l p m f c. ev \<noteq> ToLabelFormat l p m f c)
    \<and> (\<forall>v kw. ev = AddDatasample v kw \<longrightarrow> ds_out_file kw = None)"
  have "emits ?P (main w a)"
    by (rule emits_main) (use assms(1) in simp_all)
  from emitsD[OF this, of "[]" "fst (run w a)" "snd (run w a)"]
  have "list_all ?P (fst (run w a))"
    by (simp add: run_def)
  with assms(2) show ?thesis
    unfolding list_all_iff by blast
qed

theorem show_mode_writes_nothing_witness:
  "show_flag (demo_args\<lparr>show_flag := True\<rparr>)
   \<and> AddDatasample demo_visualizer (demo_call ''sub_b.jpg'' None True)
       \<in> set (fst (run demo_world (demo_args\<lparr>show_flag := True\<rparr>)))
   \<and> ds_out_file (demo_call ''sub_b.jpg'' None True) = None"
proof -
  have s: "show_flag (demo_args\<lparr>show_flag := True\<rparr>)" by simp
  have m: "AddDatasample demo_visualizer (demo_call ''sub_b.jpg'' None True)
       \<in> set (fst (run demo_world (demo_args\<lparr>show_flag := True\<rparr>)))"
    by (simp add: demo_show_run)
  from show_mode_writes_nothing[OF s m]
  have c: "ds_out_file (demo_call ''sub_b.jpg'' None True) = None" by blast
  show ?thesis by (rule conjI[OF s conjI[OF m c]])
qed

section \<open>Progress\<close>

text \<open>
  C8. The progress bar is created with the number of enumerated files and is updated
  once in every pass of the loop: the progress calls of a run that completes are the
  creation with \<^verbatim>\<open>len(files)\<close> followed by one update for each file, and the loop over
  any list of \<^verbatim>\<open>k\<close> files, once through, has made exactly \<^verbatim>\<open>k\<close> updates.
\<close>

theorem progress_reported_per_file:
  "(run w a = (tr, Inr ()) \<longrightarrow> prepare w a [] = (t0, Inr s)
      \<longrightarrow> filter is_progress tr
            = ProgressBar (length (st_files s))
              # replicate (length (st_files s)) ProgressBarUpdate)
   \<and> (process_files w' a' s' fs t = (t', Inr ())
      \<longrightarrow> filter is_progress (drop (length t) t') = replicate (length fs) ProgressBarUpdate)"
proof (intro conjI impI)
  assume run: "run w a = (tr, Inr ())" and prep: "prepare w a [] = (t0, Inr s)"
  let ?n = "length (st_files s)"
  from run_ok_decompose[OF run] prep obtain t1
    where loop: "process_files w a s (st_files s) (t0 @ [ProgressBar ?n]) = (t1, Inr ())"
      and rep: "report w a t1 = (tr, Inr ())"
    by auto
  from prepare_no_progress[OF prep] have f0: "filter is_progress t0 = []" by auto
  from process_files_progress[OF loop] obtain new1
    where n1: "t1 = (t0 @ [ProgressBar ?n]) @ new1"
      and f1: "filter is_progress new1 = replicate ?n ProgressBarUpdate"
    by blast
  from report_no_progress[OF rep] obtain new2
    where n2: "tr = t1 @ new2" and f2: "filter is_progress new2 = []"
    by blast
  from n1 n2 f0 f1 f2
  show "filter is_progress tr = ProgressBar ?n # replicate ?n ProgressBarUpdate"
    by (simp add: is_progress_def)
next
  assume "process_files w' a' s' fs t = (t', Inr ())"
  from process_files_progress[OF this]
  show "filter is_progress (drop (length t) t') = replicate (length fs) ProgressBarUpdate"
    by auto
qed

theorem progress_reported_per_file_witness:
  "run demo_world demo_args = (fst (run demo_world demo_args), Inr ())
   \<and> prepare demo_world demo_args [] =
       ([RegisterAllModules, InitDetector ''yolov5.py'' ''yolov5.pth'' ''cuda:0'',
         MkdirOrExist ''./output'', BuildVisualizer ''DetLocalVisualizer'',
         GetFileList ''imgs'', LabelmeFormat (Some [''cat'', ''dog''])],
        Inr (demo_prepared [''imgs/a.jpg'', ''imgs/sub/b.jpg''] demo_dir))
   \<and> filter is_progress (fst (run demo_world demo_args))
       = [ProgressBar 2, ProgressBarUpdate, ProgressBarUpdate]
   \<and> process_files demo_world demo_args (demo_prepared [] demo_file) [''pics/c.png''] []
       = (fst (process_files demo_world demo_args (demo_prepared [] demo_file)
                 [''pics/c.png''] []), Inr ())
   \<and> filter is_progress
         (drop (length []) (fst (process_files demo_world demo_args
            (demo_prepared [] demo_file) [''pics/c.png''] [])))
       = [ProgressBarUpdate]"
proof -
  have r: "run demo_world demo_args = (fst (run demo_world demo_args), Inr ())"
    by (simp only: demo_run fst_conv)
  have l: "process_files demo_world demo_args (demo_prepared [] demo_file) [''pics/c.png''] []
       = (fst (process_files demo_world demo_args (demo_prepared [] demo_file)
                 [''pics/c.png''] []), Inr ())"
    by (simp only: demo_loop_one fst_conv)
  note th = progress_reported_per_file[of demo_world demo_args "fst (run demo_world demo_args)"
      _ "demo_prepared [''imgs/a.jpg'', ''imgs/sub/b.jpg''] demo_dir"
      demo_world demo_args "demo_prepared [] demo_file" "[''pics/c.png'']" "[]"
      "fst (process_files demo_world demo_args (demo_prepared [] demo_file) [''pics/c.png''] [])"]
  from th r demo_prepare
  have c1: "filter is_progress (fst (run demo_world demo_args))
       = [ProgressBar 2, ProgressBarUpdate, ProgressBarUpdate]"
    by (simp add: demo_prepared_def numeral_2_eq_2)
  from th l
  have c2: "filter is_progress
         (drop (length []) (fst (process_files demo_world demo_args
            (demo_prepared [] demo_file) [''pics/c.png''] [])))
       = [ProgressBarUpdate]"
    by simp
  show ?thesis
    by (rule conjI[OF r conjI[OF demo_prepare conjI[OF c1 conjI[OF l c2]]]])
qed

section \<open>Unknown class names\<close>



section \<open>The end of a run\<close>




section \<open>Exceptions of a run\<close>

text \<open>
  C7. A run ends with a \<^verbatim>\<open>RuntimeError\<close> of the script in exactly two cases: the
  conflicting flags, before any call, and an unknown requested class name, right after
  \<^verbatim>\<open>show_data_classes\<close>; both end the run. Nothing is caught: a call that the
  environment answers with an exception is the last call of the run and its exception
  is the outcome of the run, and a run that ends with an exception of the framework
  ends with the exception of its last call.
\<close>

theorem only_two_explicit_raises:
  assumes "run w a = (tr, r)"
  shows "(\<forall>m. r = Inl (RuntimeError m) \<longleftrightarrow>
            (to_labelme a \<and> show_flag a \<and> m = conflict_msg \<and> tr = [])
          \<or> (\<not> (to_labelme a \<and> show_flag a)
              \<and> (\<exists>t0 s classes names. prepare w a [] = (t0, Inr s)
                    \<and> st_dataset_classes s = Some classes \<and> class_name a = Some names
                    \<and> \<not> set names \<subseteq> set classes
                    \<and> show_data_classes w t0 (Some classes) = Inr ()
                    \<and> m = unknown_class_msg (hd (filter (\<lambda>n. n \<notin> set classes) names))
                    \<and> tr = t0 @ [ShowDataClasses (Some classes)])))
    \<and> (\<forall>pre ev post x. tr = pre @ ev # post \<longrightarrow> response w pre ev = Some x
          \<longrightarrow> post = [] \<and> r = Inl (External x))
    \<and> (\<forall>x. r = Inl (External x)
          \<longrightarrow> (\<exists>pre ev. tr = pre @ [ev] \<and> response w pre ev = Some x))"
proof (intro conjI allI impI iffI)
  fix m
  assume rt: "r = Inl (RuntimeError m)"
  show "(to_labelme a \<and> show_flag a \<and> m = conflict_msg \<and> tr = [])
          \<or> (\<not> (to_labelme a \<and> show_flag a)
              \<and> (\<exists>t0 s classes names. prepare w a [] = (t0, Inr s)
                    \<and> st_dataset_classes s = Some classes \<and> class_name a = Some names
                    \<and> \<not> set names \<subseteq> set classes
                    \<and> show_data_classes w t0 (Some classes) = Inr ()
                    \<and> m = unknown_class_msg (hd (filter (\<lambda>n. n \<notin> set classes) names))
                    \<and> tr = t0 @ [ShowDataClasses (Some classes)]))"
  proof (cases "to_labelme a \<and> show_flag a")
    case True
    with assms rt main_conflict[of a w "[]"] show ?thesis by (simp add: run_def)
  next
    case False
    from assms rt have "run w a = (tr, Inl (RuntimeError m))" by simp
    from run_runtime_error[OF this False] False show ?thesis by blast
  qed
next
  fix m
  assume "(to_labelme a \<and> show_flag a \<and> m = conflict_msg \<and> tr = [])
          \<or> (\<not> (to_labelme a \<and> show_flag a)
              \<and> (\<exists>t0 s classes names. prepare w a [] = (t0, Inr s)
                    \<and> st_dataset_classes s = Some classes \<and> class_name a = Some names
                    \<and> \<not> set names \<subseteq> set classes
                    \<and> show_data_classes w t0 (Some classes) = Inr ()
                    \<and> m = unknown_class_msg (hd (filter (\<lambda>n. n \<notin> set classes) names))
                    \<and> tr = t0 @ [ShowDataClasses (Some classes)]))"
  then show "r = Inl (RuntimeError m)"
  proof (elim disjE conjE exE)
    assume "to_labelme a" "show_flag a" "m = conflict_msg"
    with assms main_conflict[of a w "[]"] show ?thesis by (simp add: run_def)
  next
    fix t0 s classes names
    assume nc: "\<not> (to_labelme a \<and> show_flag a)" and p: "prepare w a [] = (t0, Inr s)"
      and c: "st_dataset_classes s = Some classes" and n: "class_name a = Some names"
      and u: "\<not> set names \<subseteq> set classes"
      and sh: "show_data_classes w t0 (Some classes) = Inr ()"
      and m: "m = unknown_class_msg (hd (filter (\<lambda>n. n \<notin> set classes) names))"
    from run_unknown_class[OF nc p c n u] sh m assms show ?thesis by simp
  qed
next
  fix pre ev post x
  assume d: "tr = pre @ ev # post" and resp: "response w pre ev = Some x"
  from assms have tr: "fst (main w a []) = tr" and r: "snd (main w a []) = r"
    by (simp_all add: run_def)
  from d tr have d': "drop (length []) (fst (main w a [])) = pre @ ev # post" by simp
  from resp have resp': "response w ([] @ pre) ev = Some x" by simp
  from unhandled_fail[OF unhandled_main d' resp'] r
  show "post = []" and "r = Inl (External x)" by simp_all
next
  fix x
  assume "r = Inl (External x)"
  with assms have "snd (main w a []) = Inl (External x)" and tr: "fst (main w a []) = tr"
    by (simp_all add: run_def)
  from unhandled_last[OF unhandled_main this(1)] tr
  show "\<exists>pre ev. tr = pre @ [ev] \<and> response w pre ev = Some x" by simp
qed

theorem only_two_explicit_raises_witness:
  "run demo_world (demo_args\<lparr>show_flag := True, to_labelme := True\<rparr>)
     = ([], Inl (RuntimeError conflict_msg))
   \<and> to_labelme (demo_args\<lparr>show_flag := True, to_labelme := True\<rparr>)
   \<and> show_flag (demo_args\<lparr>show_flag := True, to_labelme := True\<rparr>)
   \<and> run broken_world demo_args =
       ([RegisterAllModules, InitDetector ''yolov5.py'' ''yolov5.pth'' ''cuda:0''],
        Inl (External ''FileNotFoundError''))
   \<and> response broken_world [RegisterAllModules]
         (InitDetector ''yolov5.py'' ''yolov5.pth'' ''cuda:0'') = Some ''FileNotFoundError''
   \<and> (\<exists>pre ev.
         [RegisterAllModules, InitDetector ''yolov5.py'' ''yolov5.pth'' ''cuda:0''] = pre @ [ev]
         \<and> response broken_world pre ev = Some ''FileNotFoundError'')"
proof -
  let ?c = "demo_args\<lparr>show_flag := True, to_labelme := True\<rparr>"
  have cr: "run demo_world ?c = ([], Inl (RuntimeError conflict_msg))"
    by (simp add: run_def main_conflict)
  from only_two_explicit_raises[OF cr]
  have "(to_labelme ?c \<and> show_flag ?c \<and> conflict_msg = conflict_msg \<and> [] = ([] :: event list))
      \<or> \<not> (to_labelme ?c \<and> show_flag ?c)"
    by blast
  then have fl: "to_labelme ?c" "show_flag ?c" by simp_all
  from only_two_explicit_raises[OF broken_run]
  have last: "\<exists>pre ev.
         [RegisterAllModules, InitDetector ''yolov5.py'' ''yolov5.pth'' ''cuda:0''] = pre @ [ev]
         \<and> response broken_world pre ev = Some ''FileNotFoundError''"
    by blast
  show ?thesis
    by (rule conjI[OF cr conjI[OF fl(1) conjI[OF fl(2) conjI[OF broken_run
          conjI[OF broken_response last]]]]])
qed

end
